theory Spec2Isabelle
  imports Complex_Main
begin

section \<open>Python text primitives used by the interpreter\<close>

text \<open>
  A Python \<open>str\<close> is modelled as a \<open>string\<close> whose characters are read as the code
  points U+0000 .. U+00FF.  The classification functions below are the ones CPython
  applies to these code points (\<open>str.lower\<close>, \<open>str.isspace\<close>, and the \<open>re\<close> categories
  \<open>\d\<close>, \<open>\s\<close>, \<open>\w\<close> for \<open>str\<close> patterns).
\<close>

definition cp :: "char \<Rightarrow> nat" where
  "cp c = of_char c"

text \<open>\<open>str.lower\<close>, one code point: A-Z and the Latin-1 capitals (U+00C0 .. U+00DE
  without the multiplication sign U+00D7) move up by 32, everything else is unchanged.\<close>

definition lower_ch :: "char \<Rightarrow> char" where
  "lower_ch c =
     (if (65 \<le> cp c \<and> cp c \<le> 90) \<or> (192 \<le> cp c \<and> cp c \<le> 222 \<and> cp c \<noteq> 215)
      then char_of (cp c + 32) else c)"

definition py_lower :: "string \<Rightarrow> string" where
  "py_lower s = map lower_ch s"

text \<open>\<open>str.isspace\<close> on one code point: TAB, LF, VT, FF, CR, the separators
  U+001C .. U+001F, SPACE, NEL (U+0085) and NO-BREAK SPACE (U+00A0).\<close>

definition isspace :: "char \<Rightarrow> bool" where
  "isspace c = ((9 \<le> cp c \<and> cp c \<le> 13) \<or> (28 \<le> cp c \<and> cp c \<le> 32) \<or> cp c = 133 \<or> cp c = 160)"

text \<open>\<open>str.strip()\<close> without argument removes leading and trailing whitespace.\<close>

definition py_strip :: "string \<Rightarrow> string" where
  "py_strip s = rev (dropWhile isspace (rev (dropWhile isspace s)))"

definition isdecimal :: "char \<Rightarrow> bool" where
  "isdecimal c = (48 \<le> cp c \<and> cp c \<le> 57)"

text \<open>\<open>\w\<close>: alphanumeric code points and the underscore.  In U+0000 .. U+00FF the
  alphanumerics are 0-9, A-Z, a-z, U+00AA, U+00B2, U+00B3, U+00B5, U+00B9, U+00BA,
  U+00BC .. U+00BE and the letters U+00C0 .. U+00FF without U+00D7 and U+00F7.\<close>

definition isword :: "char \<Rightarrow> bool" where
  "isword c =
     (isdecimal c \<or> (65 \<le> cp c \<and> cp c \<le> 90) \<or> (97 \<le> cp c \<and> cp c \<le> 122) \<or> cp c = 95
      \<or> cp c \<in> {170, 178, 179, 181, 185, 186, 188, 189, 190}
      \<or> (192 \<le> cp c \<and> cp c \<noteq> 215 \<and> cp c \<noteq> 247))"

section \<open>Regular expressions as \<open>re.search\<close> runs them\<close>

text \<open>
  The patterns of the rule table use literals, the classes \<open>\d\<close>, \<open>\s\<close>, \<open>\w\<close>,
  bracket sets, greedy \<open>+\<close>, \<open>*\<close> on a single class, greedy \<open>?\<close>, ordered
  alternation, and numbered capture groups.  Every search is made with
  \<open>re.IGNORECASE\<close>: a literal matches a character whose lower case it is.
\<close>

datatype cclass = Digit | Space | Word | OneOf "char list" | NoneOf "char list"

fun cmatch :: "cclass \<Rightarrow> char \<Rightarrow> bool" where
  "cmatch Digit x = isdecimal x"
| "cmatch Space x = isspace x"
| "cmatch Word x = isword x"
| "cmatch (OneOf cs) x = (x \<in> set cs)"
| "cmatch (NoneOf cs) x = (x \<notin> set cs)"

datatype regex =
    Str string
  | Cls cclass
  | Plus cclass
  | Star cclass
  | Seq regex regex
  | Alt regex regex
  | Opt regex
  | Grp nat regex

type_synonym groups = "nat \<Rightarrow> string option"
type_synonym 'a cont = "string \<Rightarrow> groups \<Rightarrow> 'a option"

text \<open>Backtracking matcher in continuation-passing style: \<open>k\<close> is the rest of the
  pattern; the first success in priority order is the result.\<close>

fun lits :: "string \<Rightarrow> 'a cont \<Rightarrow> 'a cont" where
  "lits [] k s g = k s g"
| "lits (c # cs) k [] g = None"
| "lits (c # cs) k (x # xs) g = (if lower_ch x = c then lits cs k xs g else None)"

fun rep :: "cclass \<Rightarrow> 'a cont \<Rightarrow> 'a cont" where
  "rep c k [] g = k [] g"
| "rep c k (x # xs) g =
     (if cmatch c x
      then (case rep c k xs g of Some r \<Rightarrow> Some r | None \<Rightarrow> k (x # xs) g)
      else k (x # xs) g)"

fun one :: "cclass \<Rightarrow> 'a cont \<Rightarrow> 'a cont" where
  "one c k [] g = None"
| "one c k (x # xs) g = (if cmatch c x then k xs g else None)"

primrec rmatch :: "regex \<Rightarrow> 'a cont \<Rightarrow> 'a cont" where
  "rmatch (Str t) k = lits t k"
| "rmatch (Cls c) k = one c k"
| "rmatch (Plus c) k = one c (rep c k)"
| "rmatch (Star c) k = rep c k"
| "rmatch (Seq a b) k = rmatch a (rmatch b k)"
| "rmatch (Alt a b) k =
     (\<lambda>s g. case rmatch a k s g of Some r \<Rightarrow> Some r | None \<Rightarrow> rmatch b k s g)"
| "rmatch (Opt a) k =
     (\<lambda>s g. case rmatch a k s g of Some r \<Rightarrow> Some r | None \<Rightarrow> k s g)"
| "rmatch (Grp n a) k =
     (\<lambda>s g. rmatch a (\<lambda>s' g'. k s' (g'(n \<mapsto> take (length s - length s') s))) s g)"

primrec ngroups :: "regex \<Rightarrow> nat" where
  "ngroups (Str t) = 0"
| "ngroups (Cls c) = 0"
| "ngroups (Plus c) = 0"
| "ngroups (Star c) = 0"
| "ngroups (Seq a b) = ngroups a + ngroups b"
| "ngroups (Alt a b) = ngroups a + ngroups b"
| "ngroups (Opt a) = ngroups a"
| "ngroups (Grp n a) = Suc (ngroups a)"

text \<open>A match object: the number of groups of the pattern and the text of each group
  that took part in the match.\<close>

record match =
  mgroups :: nat
  mtext :: groups

definition match_at :: "regex \<Rightarrow> string \<Rightarrow> match option" where
  "match_at r s = rmatch r (\<lambda>s' g. Some \<lparr>mgroups = ngroups r, mtext = g\<rparr>) s Map.empty"

text \<open>\<open>re.search\<close>: the match at the leftmost start position that has one.\<close>

fun re_search :: "regex \<Rightarrow> string \<Rightarrow> match option" where
  "re_search r [] = match_at r []"
| "re_search r (x # xs) =
     (case match_at r (x # xs) of Some m \<Rightarrow> Some m | None \<Rightarrow> re_search r xs)"

section \<open>Exceptions and dynamically typed values\<close>

datatype exc_class = ValueError | IndexError | TypeError | AttributeError | OtherError

text \<open>A raised exception: its class and the text \<open>str(e)\<close> gives.\<close>

datatype py_exc = Raised exc_class string

fun str_exc :: "py_exc \<Rightarrow> string" where
  "str_exc (Raised c t) = t"

fun exc_class_of :: "py_exc \<Rightarrow> exc_class" where
  "exc_class_of (Raised c t) = c"

text \<open>Sequencing of computations that may raise.\<close>

definition bind_exc :: "py_exc + 'a \<Rightarrow> ('a \<Rightarrow> py_exc + 'b) \<Rightarrow> py_exc + 'b" where
  "bind_exc x f = (case x of Inl e \<Rightarrow> Inl e | Inr v \<Rightarrow> f v)"

text \<open>Decimal rendering of integers, as \<open>str\<close> and f-strings produce it.\<close>

fun str_nat :: "nat \<Rightarrow> string" where
  "str_nat n =
     (if n < 10 then [char_of (48 + n)] else str_nat (n div 10) @ [char_of (48 + n mod 10)])"

definition str_int :: "int \<Rightarrow> string" where
  "str_int i = (if i < 0 then CHR ''-'' # str_nat (nat (- i)) else str_nat (nat i))"

text \<open>The values a parameter dictionary holds: \<open>None\<close>, integers, strings and key
  lists.  \<open>d.get(k)\<close> gives \<open>None\<close> for a missing key, \<open>d.get(k, v)\<close> gives \<open>v\<close>.\<close>

datatype pval = PNone | PInt int | PStr string | PKeys "string list"

type_synonym params = "(string \<times> pval) list"

definition dict_get :: "params \<Rightarrow> string \<Rightarrow> pval" where
  "dict_get d k = (case map_of d k of Some w \<Rightarrow> w | None \<Rightarrow> PNone)"

definition dict_get_default :: "params \<Rightarrow> string \<Rightarrow> pval \<Rightarrow> pval" where
  "dict_get_default d k v = (case map_of d k of Some w \<Rightarrow> w | None \<Rightarrow> v)"

definition opt_str :: "string option \<Rightarrow> pval" where
  "opt_str v = (case v of None \<Rightarrow> PNone | Some t \<Rightarrow> PStr t)"

section \<open>intent\_parser.py\<close>

record ActionResult =
  success :: bool
  message :: string
  result_type :: string

text \<open>\<open>ParsedIntent\<close>; the constant confidence 0.8 is read as the decimal 8/10.\<close>

record ParsedIntent =
  action_type :: string
  parameters :: params
  confidence :: rat
  raw_command :: string

subsection \<open>The rule table of \<open>_initialize_patterns\<close>\<close>

primrec cat :: "regex list \<Rightarrow> regex" where
  "cat [] = Str []"
| "cat (r # rs) = Seq r (cat rs)"

text \<open>\<^verbatim>\<open>\s+\<close> and \<^verbatim>\<open>\s*\<close>\<close>

abbreviation ws1 :: regex where "ws1 \<equiv> Plus Space"
abbreviation ws0 :: regex where "ws0 \<equiv> Star Space"

text \<open>The common tail of the coordinate patterns:
  \<^verbatim>\<open>(?:position\s+)?(?:\()?(\d+)(?:\s*,\s*|\s+)(\d+)(?:\))?\<close>\<close>

definition xy_tail :: "regex list" where
  "xy_tail =
     [Opt (cat [Str ''position'', ws1]),
      Opt (Str ''(''),
      Grp 1 (Plus Digit),
      Alt (cat [ws0, Str '','', ws0]) ws1,
      Grp 2 (Plus Digit),
      Opt (Str '')'')]"

text \<open>The three click patterns: \<^verbatim>\<open>right\s+click\s+(?:at\s+)?\<close>,
  \<^verbatim>\<open>double\s+click\s+(?:at\s+)?\<close> and \<^verbatim>\<open>(?:left\s+)?click\s+(?:at\s+)?\<close>, each
  followed by the common tail.\<close>

definition right_click_pattern :: regex where
  "right_click_pattern =
     cat ([Str ''right'', ws1, Str ''click'', ws1, Opt (cat [Str ''at'', ws1])] @ xy_tail)"

definition double_click_pattern :: regex where
  "double_click_pattern =
     cat ([Str ''double'', ws1, Str ''click'', ws1, Opt (cat [Str ''at'', ws1])] @ xy_tail)"

definition click_pattern :: regex where
  "click_pattern =
     cat ([Opt (cat [Str ''left'', ws1]), Str ''click'', ws1, Opt (cat [Str ''at'', ws1])]
          @ xy_tail)"

text \<open>The double and the single quote of the bracket sets in the text patterns.\<close>

definition quotes :: "char list" where
  "quotes = [CHR 0x22, CHR 0x27]"

text \<open>VERB, \<^verbatim>\<open>\s+\<close>, a quote, group 1 of one or more non-quotes, a quote.\<close>

definition quoted_after :: "string \<Rightarrow> regex" where
  "quoted_after verb =
     cat [Str verb, ws1, Cls (OneOf quotes), Grp 1 (Plus (NoneOf quotes)), Cls (OneOf quotes)]"

text \<open>\<^verbatim>\<open>VERB\s+(?:the\s+)?(\w+)(?:\s+key)?\<close>\<close>

definition key_after :: "string \<Rightarrow> regex" where
  "key_after verb =
     cat [Str verb, ws1, Opt (cat [Str ''the'', ws1]), Grp 1 (Plus Word),
          Opt (cat [ws1, Str ''key''])]"

text \<open>\<^verbatim>\<open>(\w+)\s*\+\s*(\w+)\<close>\<close>

definition combo :: "regex list" where
  "combo = [Grp 1 (Plus Word), ws0, Str ''+'', ws0, Grp 2 (Plus Word)]"

text \<open>\<^verbatim>\<open>(up|down)\<close> as group \<open>n\<close>\<close>

definition up_down :: "nat \<Rightarrow> regex" where
  "up_down n = Grp n (Alt (Str ''up'') (Str ''down''))"

text \<open>\<^verbatim>\<open>scroll\s+(up|down)(?:\s+(\d+))?\<close>\<close>

definition scroll_direction_pattern :: regex where
  "scroll_direction_pattern =
     cat [Str ''scroll'', ws1, up_down 1, Opt (cat [ws1, Grp 2 (Plus Digit)])]"

text \<open>\<^verbatim>\<open>scroll\s+(\d+)\s+times?\s+(up|down)\<close>\<close>

definition scroll_count_pattern :: regex where
  "scroll_count_pattern =
     cat [Str ''scroll'', ws1, Grp 1 (Plus Digit), ws1, Str ''time'', Opt (Str ''s''), ws1,
          up_down 2]"

text \<open>The dictionary keeps its insertion order, so iterating \<open>items()\<close> visits the
  categories as listed; each rule is a pattern and a pattern type.\<close>

definition patterns :: "(string \<times> (regex \<times> string) list) list" where
  "patterns =
   [(''click'',
      [(right_click_pattern, ''right_coordinates''),
       (double_click_pattern, ''double_coordinates''),
       (click_pattern, ''coordinates'')]),
    (''type'',
      [(quoted_after ''type'', ''text''),
       (quoted_after ''write'', ''text''),
       (quoted_after ''enter'', ''text''),
       (quoted_after ''input'', ''text'')]),
    (''key'',
      [(key_after ''press'', ''single_key''),
       (key_after ''hit'', ''single_key''),
       (cat ([Str ''press'', ws1] @ combo), ''key_combo''),
       (cat combo, ''key_combo'')]),
    (''scroll'',
      [(scroll_direction_pattern, ''direction''),
       (scroll_count_pattern, ''direction_count'')]),
    (''move'',
      [(cat ([Str ''move'', ws1, Opt (cat [Str ''mouse'', ws1]), Opt (cat [Str ''to'', ws1])]
             @ xy_tail),
          ''coordinates''),
       (cat ([Str ''move'', ws1, Opt (cat [Str ''cursor'', ws1]), Opt (cat [Str ''to'', ws1])]
             @ xy_tail),
          ''coordinates'')]),
    (''screenshot'',
      [(cat [Str ''take'', ws1, Opt (cat [Str ''a'', ws1]), Str ''screenshot''], ''simple''),
       (cat [Str ''capture'', ws1, Str ''screen''], ''simple''),
       (Str ''screenshot'', ''simple'')])]"

subsection \<open>\<open>_extract_parameters\<close>\<close>

text \<open>\<open>match.group(n)\<close>: IndexError for a group the pattern does not have, \<open>None\<close> for
  a group that took no part in the match.\<close>

definition group :: "match \<Rightarrow> nat \<Rightarrow> py_exc + string option" where
  "group m n =
     (if n \<le> mgroups m then Inr (mtext m n) else Inl (Raised IndexError ''no such group''))"

text \<open>\<open>int(x)\<close> on the value of a group.  \<open>None\<close> is a TypeError.  A string of
  decimal digits converts unless it is longer than CPython's default limit of 4300
  digits (\<open>sys.int_info.default_max_str_digits\<close>), which is a ValueError; the groups
  converted by the rules are captures of \<^verbatim>\<open>\d+\<close>, so other text (also a ValueError
  here) does not occur.\<close>

definition max_str_digits :: nat where
  "max_str_digits = 4300"

definition digit_val :: "char \<Rightarrow> int" where
  "digit_val c = int (cp c) - 48"

definition py_int :: "string option \<Rightarrow> py_exc + int" where
  "py_int v =
     (case v of
        None \<Rightarrow> Inl (Raised TypeError ''int() argument must not be NoneType'')
      | Some s \<Rightarrow>
          if s = [] \<or> \<not> list_all isdecimal s
          then Inl (Raised ValueError (''invalid literal for int() with base 10: '' @ s))
          else if max_str_digits < length s
          then Inl (Raised ValueError
            (''Exceeds the limit (4300 digits) for integer string conversion: value has ''
               @ str_nat (length s)
               @ '' digits; use sys.set_int_max_str_digits() to increase the limit''))
          else Inr (foldl (\<lambda>a c. 10 * a + digit_val c) 0 s))"

text \<open>\<open>s.lower()\<close> on the value of a group: \<open>None\<close> has no such attribute.\<close>

definition group_lower :: "string option \<Rightarrow> py_exc + string" where
  "group_lower v =
     (case v of
        None \<Rightarrow> Inl (Raised AttributeError ''NoneType object has no attribute lower'')
      | Some s \<Rightarrow> Inr (py_lower s))"

text \<open>The two synonym tables, and \<open>key_mapping.get(key, key)\<close>.\<close>

definition single_key_mapping :: "(string \<times> string) list" where
  "single_key_mapping =
    [(''enter'', ''enter''), (''return'', ''enter''), (''space'', ''space''),
     (''spacebar'', ''space''), (''tab'', ''tab''), (''escape'', ''esc''), (''esc'', ''esc''),
     (''delete'', ''delete''), (''backspace'', ''backspace''), (''ctrl'', ''ctrl''),
     (''alt'', ''alt''), (''shift'', ''shift''), (''windows'', ''winleft''),
     (''win'', ''winleft''), (''cmd'', ''cmd''),
     (''f1'', ''f1''), (''f2'', ''f2''), (''f3'', ''f3''), (''f4'', ''f4''),
     (''f5'', ''f5''), (''f6'', ''f6''), (''f7'', ''f7''), (''f8'', ''f8''),
     (''f9'', ''f9''), (''f10'', ''f10''), (''f11'', ''f11''), (''f12'', ''f12''),
     (''up'', ''up''), (''down'', ''down''), (''left'', ''left''), (''right'', ''right''),
     (''home'', ''home''), (''end'', ''end''), (''pageup'', ''pageup''),
     (''pagedown'', ''pagedown'')]"

definition combo_key_mapping :: "(string \<times> string) list" where
  "combo_key_mapping =
    [(''ctrl'', ''ctrl''), (''control'', ''ctrl''), (''alt'', ''alt''), (''shift'', ''shift''),
     (''cmd'', ''cmd''), (''command'', ''cmd''), (''win'', ''winleft''),
     (''windows'', ''winleft'')]"

definition mapping_get :: "(string \<times> string) list \<Rightarrow> string \<Rightarrow> string" where
  "mapping_get tab k = (case map_of tab k of Some v \<Rightarrow> v | None \<Rightarrow> k)"

text \<open>The body of the \<open>try\<close> block: the parameters, \<open>None\<close> when no branch applies, or
  the exception raised.\<close>

definition coordinates_of :: "match \<Rightarrow> params \<Rightarrow> py_exc + params option" where
  "coordinates_of m rest =
     bind_exc (group m 1) (\<lambda>g1. bind_exc (py_int g1) (\<lambda>x.
     bind_exc (group m 2) (\<lambda>g2. bind_exc (py_int g2) (\<lambda>y.
       Inr (Some ([(''x'', PInt x), (''y'', PInt y)] @ rest))))))"

definition extract_body :: "match \<Rightarrow> string \<Rightarrow> py_exc + params option" where
  "extract_body m pattern_type =
    (if pattern_type = ''coordinates'' then
       coordinates_of m [(''button'', PStr ''left'')]
     else if pattern_type = ''right_coordinates'' then
       coordinates_of m [(''button'', PStr ''right'')]
     else if pattern_type = ''double_coordinates'' then
       coordinates_of m [(''button'', PStr ''left''), (''clicks'', PInt 2)]
     else if pattern_type = ''text'' then
       bind_exc (group m 1) (\<lambda>g1. Inr (Some [(''text'', opt_str g1)]))
     else if pattern_type = ''single_key'' then
       bind_exc (group m 1) (\<lambda>g1. bind_exc (group_lower g1) (\<lambda>key.
         Inr (Some [(''key'', PStr (mapping_get single_key_mapping key))])))
     else if pattern_type = ''key_combo'' then
       bind_exc (group m 1) (\<lambda>g1. bind_exc (group_lower g1) (\<lambda>key1.
       bind_exc (group m 2) (\<lambda>g2. bind_exc (group_lower g2) (\<lambda>key2.
         Inr (Some [(''keys'', PKeys [mapping_get combo_key_mapping key1,
                                      mapping_get combo_key_mapping key2])])))))
     else if pattern_type = ''direction'' then
       bind_exc (group m 1) (\<lambda>direction.
       bind_exc (group m 2) (\<lambda>g2.
       bind_exc (if g2 \<noteq> None \<and> g2 \<noteq> Some [] then bind_exc (group m 2) py_int else Inr 3)
         (\<lambda>clicks.
         Inr (Some [(''direction'', opt_str direction), (''clicks'', PInt clicks)]))))
     else if pattern_type = ''direction_count'' then
       bind_exc (group m 1) (\<lambda>g1. bind_exc (py_int g1) (\<lambda>clicks.
       bind_exc (group m 2) (\<lambda>direction.
         Inr (Some [(''direction'', opt_str direction), (''clicks'', PInt clicks)]))))
     else if pattern_type = ''simple'' then Inr (Some [])
     else Inr None)"

text \<open>The \<open>except (ValueError, IndexError)\<close> clause turns these two classes into
  \<open>None\<close>; any other exception leaves the function.\<close>

definition extract_parameters :: "match \<Rightarrow> string \<Rightarrow> string \<Rightarrow> py_exc + params option" where
  "extract_parameters m pattern_type act =
     (case extract_body m pattern_type of
        Inl e \<Rightarrow> (if exc_class_of e = ValueError \<or> exc_class_of e = IndexError
                  then Inr None else Inl e)
      | Inr r \<Rightarrow> Inr r)"

subsection \<open>\<open>parse_command\<close>\<close>

text \<open>The inner loop over the rules of one category, and the outer loop over the
  categories: a rule whose pattern is found and whose parameters are not \<open>None\<close> ends
  the traversal; otherwise the next rule is tried.\<close>

fun scan_rules :: "string \<Rightarrow> (regex \<times> string) list \<Rightarrow> string \<Rightarrow> py_exc + ParsedIntent option"
  where
  "scan_rules act [] command = Inr None"
| "scan_rules act ((pattern, pattern_type) # rules) command =
     (case re_search pattern command of
        None \<Rightarrow> scan_rules act rules command
      | Some m \<Rightarrow>
          (case extract_parameters m pattern_type act of
             Inl e \<Rightarrow> Inl e
           | Inr None \<Rightarrow> scan_rules act rules command
           | Inr (Some ps) \<Rightarrow>
               Inr (Some \<lparr>action_type = act, parameters = ps, confidence = 8 / 10,
                          raw_command = command\<rparr>)))"

fun scan_categories ::
  "(string \<times> (regex \<times> string) list) list \<Rightarrow> string \<Rightarrow> py_exc + ParsedIntent option" where
  "scan_categories [] command = Inr None"
| "scan_categories ((act, rules) # cats) command =
     (case scan_rules act rules command of
        Inl e \<Rightarrow> Inl e
      | Inr (Some i) \<Rightarrow> Inr (Some i)
      | Inr None \<Rightarrow> scan_categories cats command)"

definition parse_command :: "string \<Rightarrow> py_exc + ParsedIntent option" where
  "parse_command command0 =
     (let command = py_strip (py_lower command0)
      in if command = [] then Inr None else scan_categories patterns command)"

section \<open>The actuator\<close>

text \<open>
  The dispatcher drives an automation engine (\<open>AutomationEngine\<close> in app.py, the mock
  engine in demo.py).  An engine is a record of its methods; each call takes the state
  \<open>'w\<close> of the outside world and returns the new one, together with either a result
  or the exception the call raised.
\<close>

type_synonym 'w act_call = "'w \<Rightarrow> (py_exc + ActionResult) \<times> 'w"

record 'w actuator =
  click_at_position :: "pval \<Rightarrow> pval \<Rightarrow> pval \<Rightarrow> 'w act_call"
  type_text :: "pval \<Rightarrow> 'w act_call"
  press_key :: "pval \<Rightarrow> 'w act_call"
  key_combination :: "pval \<Rightarrow> 'w act_call"
  scroll :: "pval \<Rightarrow> pval \<Rightarrow> 'w act_call"
  move_mouse :: "pval \<Rightarrow> pval \<Rightarrow> 'w act_call"
  take_screenshot :: "'w \<Rightarrow> (py_exc + string option) \<times> 'w"

text \<open>What the dispatcher does to the outside, in order: the engine calls with their
  arguments, and \<open>time.sleep(0.1)\<close>.\<close>

datatype event =
    Click pval pval pval
  | Sleep rat
  | TypeText pval
  | PressKey pval
  | KeyCombination pval
  | Scroll pval pval
  | MoveMouse pval pval
  | TakeScreenshot

subsection \<open>\<open>scroll\<close> of the two engines\<close>

text \<open>\<open>AutomationEngine.scroll\<close>; \<open>pyautogui.scroll\<close> is the parameter \<open>gui_scroll\<close>,
  which may raise.\<close>

definition AutomationEngine_scroll ::
  "(int \<Rightarrow> 'w \<Rightarrow> py_exc option \<times> 'w) \<Rightarrow> string \<Rightarrow> int \<Rightarrow> 'w \<Rightarrow> ActionResult \<times> 'w" where
  "AutomationEngine_scroll gui_scroll direction clicks w =
     (let failed = (\<lambda>e. \<lparr>success = False, message = ''Failed to scroll: '' @ str_exc e,
                            result_type = ''scroll''\<rparr>);
          done = \<lparr>success = True,
                  message = ''Scrolled '' @ direction @ '' '' @ str_int clicks @ '' clicks'',
                  result_type = ''scroll''\<rparr>
      in if py_lower direction = ''up'' then
           (case gui_scroll clicks w of
              (Some e, w') \<Rightarrow> (failed e, w')
            | (None, w') \<Rightarrow> (done, w'))
         else if py_lower direction = ''down'' then
           (case gui_scroll (- clicks) w of
              (Some e, w') \<Rightarrow> (failed e, w')
            | (None, w') \<Rightarrow> (done, w'))
         else
           (\<lparr>success = False, message = ''Invalid scroll direction: '' @ direction,
              result_type = ''scroll''\<rparr>, w))"

text \<open>\<open>MockAutomationEngine.scroll\<close>\<close>

definition MockAutomationEngine_scroll :: "string \<Rightarrow> int \<Rightarrow> ActionResult" where
  "MockAutomationEngine_scroll direction clicks =
     (if py_lower direction \<notin> set [''up'', ''down'']
      then \<lparr>success = False, message = ''Invalid scroll direction: '' @ direction,
             result_type = ''scroll''\<rparr>
      else \<lparr>success = True,
             message = ''[SIMULATED] Scrolled '' @ direction @ '' '' @ str_int clicks @ '' clicks'',
             result_type = ''scroll''\<rparr>)"

section \<open>app.py\<close>

text \<open>An optional string in a condition is true when it is neither \<open>None\<close> nor
  empty; \<open>path_text\<close> is its text.\<close>

fun truthy :: "string option \<Rightarrow> bool" where
  "truthy None = False"
| "truthy (Some s) = (s \<noteq> [])"

fun path_text :: "string option \<Rightarrow> string" where
  "path_text None = ''None''"
| "path_text (Some s) = s"

subsection \<open>\<open>_execute_action\<close>\<close>

text \<open>The body of the \<open>try\<close> block.  It returns the result or the exception raised,
  the new state of the world, and the events in order.\<close>

definition execute_body ::
  "'w actuator \<Rightarrow> ParsedIntent \<Rightarrow> 'w \<Rightarrow> (py_exc + ActionResult) \<times> 'w \<times> event list" where
  "execute_body eng intent w =
    (let ps = parameters intent in
     if action_type intent = ''click'' then
       (let x = dict_get ps ''x'';
            y = dict_get ps ''y'';
            button = dict_get_default ps ''button'' (PStr ''left'');
            clicks = dict_get_default ps ''clicks'' (PInt 1)
        in if clicks = PInt 2 then
             (case click_at_position eng x y button w of
                (Inl e, w1) \<Rightarrow> (Inl e, w1, [Click x y button])
              | (Inr first, w1) \<Rightarrow>
                  (case click_at_position eng x y button w1 of
                     (r, w2) \<Rightarrow> (r, w2, [Click x y button, Sleep (1 / 10), Click x y button])))
           else
             (case click_at_position eng x y button w of
                (r, w1) \<Rightarrow> (r, w1, [Click x y button])))
     else if action_type intent = ''type'' then
       (let text = dict_get ps ''text''
        in case type_text eng text w of (r, w1) \<Rightarrow> (r, w1, [TypeText text]))
     else if action_type intent = ''key'' then
       (case map_of ps ''keys'' of
          Some keys \<Rightarrow>
            (case key_combination eng keys w of (r, w1) \<Rightarrow> (r, w1, [KeyCombination keys]))
        | None \<Rightarrow>
            (let key = dict_get ps ''key''
             in case press_key eng key w of (r, w1) \<Rightarrow> (r, w1, [PressKey key])))
     else if action_type intent = ''scroll'' then
       (let direction = dict_get ps ''direction'';
            clicks = dict_get_default ps ''clicks'' (PInt 3)
        in case scroll eng direction clicks w of (r, w1) \<Rightarrow> (r, w1, [Scroll direction clicks]))
     else if action_type intent = ''move'' then
       (let x = dict_get ps ''x'';
            y = dict_get ps ''y''
        in case move_mouse eng x y w of (r, w1) \<Rightarrow> (r, w1, [MoveMouse x y]))
     else if action_type intent = ''screenshot'' then
       (case take_screenshot eng w of
          (Inl e, w1) \<Rightarrow> (Inl e, w1, [TakeScreenshot])
        | (Inr screenshot_path, w1) \<Rightarrow>
            (if truthy screenshot_path
             then (Inr \<lparr>success = True,
                         message = ''Screenshot saved as '' @ path_text screenshot_path,
                         result_type = ''screenshot''\<rparr>, w1, [TakeScreenshot])
             else (Inr \<lparr>success = False, message = ''Failed to take screenshot'',
                         result_type = ''screenshot''\<rparr>, w1, [TakeScreenshot])))
     else
       (Inr \<lparr>success = False, message = ''Unknown action type: '' @ action_type intent,
              result_type = ''unknown''\<rparr>, w, []))"

text \<open>The \<open>except Exception\<close> clause around the body.\<close>

definition execution_error :: "py_exc \<Rightarrow> ParsedIntent \<Rightarrow> ActionResult" where
  "execution_error e intent =
     \<lparr>success = False, message = ''Execution error: '' @ str_exc e,
      result_type = action_type intent\<rparr>"

definition execute_action ::
  "'w actuator \<Rightarrow> ParsedIntent \<Rightarrow> 'w \<Rightarrow> (py_exc + ActionResult) \<times> 'w \<times> event list" where
  "execute_action eng intent w =
     (case execute_body eng intent w of
        (Inl e, w', evs) \<Rightarrow> (Inr (execution_error e intent), w', evs)
      | (Inr r, w', evs) \<Rightarrow> (Inr r, w', evs))"

subsection \<open>The execution history\<close>

type_synonym history = "(string \<times> ActionResult) list"

text \<open>\<open>self.execution_history.append((command, result))\<close>\<close>

definition record_entry :: "history \<Rightarrow> string \<Rightarrow> ActionResult \<Rightarrow> history" where
  "record_entry h command result = h @ [(command, result)]"






subsection \<open>\<open>process_command\<close>\<close>

text \<open>The state of an \<open>IntentApparatus\<close>: the world its engine acts on and the history.\<close>

record 'w apparatus =
  world :: 'w
  execution_history :: history

text \<open>The first two components of the returned triple.  The status labels and the
  example catalogue contain symbols outside U+0000 .. U+00FF, so they are kept as
  constructors: \<open>StatusError\<close> is the cross mark with "Error", \<open>StatusUnableToParse\<close> the
  cross mark with "Unable to parse command", \<open>StatusSuccess\<close> the check mark with
  "Success"; \<open>CouldNotUnderstand c\<close> is the text quoting the command \<open>c\<close> followed by the
  examples.\<close>

datatype status = StatusError | StatusUnableToParse | StatusSuccess

datatype reply = PleaseEnterACommand | CouldNotUnderstand string | ResultMessage string

text \<open>\<open>abspath\<close> stands for \<open>os.path.abspath\<close>.  The third component is the
  screenshot path: \<open>None\<close> when the engine returned \<open>None\<close>.\<close>

definition process_command ::
  "(string \<Rightarrow> string) \<Rightarrow> 'w actuator \<Rightarrow> 'w apparatus \<Rightarrow> string
     \<Rightarrow> (py_exc + status \<times> reply \<times> string option) \<times> 'w apparatus" where
  "process_command abspath eng st command =
    (if py_strip command = [] then (Inr (StatusError, PleaseEnterACommand, Some []), st)
     else case parse_command command of
       Inl e \<Rightarrow> (Inl e, st)
     | Inr None \<Rightarrow> (Inr (StatusUnableToParse, CouldNotUnderstand command, Some []), st)
     | Inr (Some parsed_intent) \<Rightarrow>
        (case execute_action eng parsed_intent (world st) of
           (Inl e, w1, evs) \<Rightarrow> (Inl e, st\<lparr>world := w1\<rparr>)
         | (Inr result, w1, evs) \<Rightarrow>
            (let st1 = \<lparr>world = w1,
                        execution_history = record_entry (execution_history st) command result\<rparr>;
                 status = (if success result then StatusSuccess else StatusError);
                 message = ResultMessage (message result)
             in if success result
                   \<and> action_type parsed_intent \<in> set [''click'', ''move'', ''screenshot'']
                then (case take_screenshot eng w1 of
                        (Inl e, w2) \<Rightarrow> (Inl e, st1\<lparr>world := w2\<rparr>)
                      | (Inr screenshot_path, w2) \<Rightarrow>
                          (Inr (status, message,
                                if truthy screenshot_path
                                then Some (abspath (path_text screenshot_path))
                                else screenshot_path),
                           st1\<lparr>world := w2\<rparr>))
                else (Inr (status, message, Some []), st1))))"

section \<open>An engine driven by a script\<close>

text \<open>For running the dispatcher on examples: the world is the list of outcomes still
  to come, and every engine call takes the next one (a call on an exhausted script
  raises).  Screenshots are not available.\<close>

definition next_outcome :: "(py_exc + ActionResult) list act_call" where
  "next_outcome w =
     (case w of [] \<Rightarrow> (Inl (Raised OtherError ''script exhausted''), []) | r # rs \<Rightarrow> (r, rs))"

definition scripted :: "(py_exc + ActionResult) list actuator" where
  "scripted =
     \<lparr>click_at_position = (\<lambda>x y button. next_outcome),
      type_text = (\<lambda>text. next_outcome),
      press_key = (\<lambda>key. next_outcome),
      key_combination = (\<lambda>keys. next_outcome),
      scroll = (\<lambda>direction clicks. next_outcome),
      move_mouse = (\<lambda>x y. next_outcome),
      take_screenshot = (\<lambda>w. (Inr None, w))\<rparr>"

section \<open>Notions used to state the properties\<close>

subsection \<open>What a pattern can match\<close>

text \<open>The texts a pattern matches, the capture groups it contains (number and body),
  and the groups that take part in every match.\<close>

primrec lang :: "regex \<Rightarrow> string set" where
  "lang (Str t) = {w. map lower_ch w = t}"
| "lang (Cls c) = {[x] | x. cmatch c x}"
| "lang (Plus c) = {w. w \<noteq> [] \<and> (\<forall>x\<in>set w. cmatch c x)}"
| "lang (Star c) = {w. \<forall>x\<in>set w. cmatch c x}"
| "lang (Seq a b) = {u @ v | u v. u \<in> lang a \<and> v \<in> lang b}"
| "lang (Alt a b) = lang a \<union> lang b"
| "lang (Opt a) = insert [] (lang a)"
| "lang (Grp n a) = lang a"

primrec groups_of :: "regex \<Rightarrow> (nat \<times> regex) list" where
  "groups_of (Str t) = []"
| "groups_of (Cls c) = []"
| "groups_of (Plus c) = []"
| "groups_of (Star c) = []"
| "groups_of (Seq a b) = groups_of a @ groups_of b"
| "groups_of (Alt a b) = groups_of a @ groups_of b"
| "groups_of (Opt a) = groups_of a"
| "groups_of (Grp n a) = (n, a) # groups_of a"

primrec must :: "regex \<Rightarrow> nat set" where
  "must (Str t) = {}"
| "must (Cls c) = {}"
| "must (Plus c) = {}"
| "must (Star c) = {}"
| "must (Seq a b) = must a \<union> must b"
| "must (Alt a b) = must a \<inter> must b"
| "must (Opt a) = {}"
| "must (Grp n a) = insert n (must a)"

definition holds_on :: "(nat \<Rightarrow> string \<Rightarrow> bool) \<Rightarrow> groups \<Rightarrow> bool" where
  "holds_on P g = (\<forall>n w. g n = Some w \<longrightarrow> P n w)"

subsection \<open>The rule table as one sequence\<close>

text \<open>All rules in the order the two loops of \<open>parse_command\<close> visit them, each with
  its category.\<close>

definition rule_list :: "(string \<times> regex \<times> string) list" where
  "rule_list = concat (map (\<lambda>(act, rules). map (\<lambda>(p, t). (act, p, t)) rules) patterns)"

text \<open>What one rule makes of a command: the intent, nothing (the pattern is not found,
  or the parameters are \<open>None\<close>), or an exception.\<close>

definition try_rule :: "string \<times> regex \<times> string \<Rightarrow> string \<Rightarrow> py_exc + ParsedIntent option"
  where
  "try_rule rule command =
     (case rule of (act, pattern, pattern_type) \<Rightarrow>
        (case re_search pattern command of
           None \<Rightarrow> Inr None
         | Some m \<Rightarrow>
             (case extract_parameters m pattern_type act of
                Inl e \<Rightarrow> Inl e
              | Inr None \<Rightarrow> Inr None
              | Inr (Some ps) \<Rightarrow>
                  Inr (Some \<lparr>action_type = act, parameters = ps, confidence = 8 / 10,
                             raw_command = command\<rparr>))))"

text \<open>The first rule of a sequence that makes something of the command decides.\<close>

fun first_result ::
  "(string \<times> regex \<times> string) list \<Rightarrow> string \<Rightarrow> py_exc + ParsedIntent option" where
  "first_result [] command = Inr None"
| "first_result (rule # rules) command =
     (case try_rule rule command of
        Inr None \<Rightarrow> first_result rules command
      | other \<Rightarrow> other)"

text \<open>Two results for the scripts of the examples.\<close>

definition done_result :: ActionResult where
  "done_result = \<lparr>success = True, message = ''done'', result_type = ''click''\<rparr>"

definition failed_result :: ActionResult where
  "failed_result = \<lparr>success = False, message = ''failed'', result_type = ''click''\<rparr>"

text \<open>A number of 4301 digits, one more than \<open>int\<close> converts.\<close>

definition long_number :: string where
  "long_number = replicate 4301 (CHR ''7'')"

text \<open>Two commands holding it, once as the x and once as the y coordinate of a right click
  that follows a double click.\<close>

definition long_x_command :: string where
  "long_x_command = ''double click 1,2 right click '' @ long_number @ '',5''"

definition long_y_command :: string where
  "long_y_command = ''double click 3,4 right click 5,'' @ long_number"

section \<open>Text normalisation\<close>

lemma cp_char_of: "n < 256 \<Longrightarrow> cp (char_of n) = n"
  by (simp add: cp_def)

lemma lower_ch_idem: "lower_ch (lower_ch c) = lower_ch c"
  by (auto simp: lower_ch_def cp_char_of)

lemma isspace_lower_ch: "isspace (lower_ch c) = isspace c"
  by (auto simp: lower_ch_def isspace_def cp_char_of)

lemma py_lower_idem: "py_lower (py_lower s) = py_lower s"
  by (simp add: py_lower_def lower_ch_idem)

lemma strip_lower_commute: "py_strip (py_lower s) = py_lower (py_strip s)"
proof -
  have "isspace \<circ> lower_ch = isspace"
    by (rule ext) (simp add: isspace_lower_ch)
  then show ?thesis
    by (simp add: py_strip_def py_lower_def dropWhile_map rev_map)
qed

lemma py_strip_ends:
  "py_strip s = [] \<or> (\<not> isspace (hd (py_strip s)) \<and> \<not> isspace (last (py_strip s)))"
proof (cases "py_strip s = []")
  case True
  then show ?thesis by simp
next
  case False
  define t where "t = dropWhile isspace s"
  define u where "u = dropWhile isspace (rev t)"
  have ps: "py_strip s = rev u"
    by (simp add: py_strip_def t_def u_def)
  with False have un: "u \<noteq> []" by simp
  then have hu: "\<not> isspace (hd u)"
    unfolding u_def by (rule hd_dropWhile)
  have tn: "t \<noteq> []" using un u_def by auto
  then have ht: "\<not> isspace (hd t)"
    unfolding t_def by (rule hd_dropWhile)
  obtain v where v: "rev t = v @ u"
    unfolding u_def by (metis takeWhile_dropWhile_id)
  then have "t = rev u @ rev v"
    by (metis rev_append rev_rev_ident)
  with un have "hd (rev u) = hd t" by simp
  with ht hu un show ?thesis
    by (simp add: ps last_rev)
qed

lemma py_strip_fixed:
  "s \<noteq> [] \<Longrightarrow> \<not> isspace (hd s) \<Longrightarrow> \<not> isspace (last s) \<Longrightarrow> py_strip s = s"
proof -
  assume a: "s \<noteq> []" "\<not> isspace (hd s)" "\<not> isspace (last s)"
  then have 1: "dropWhile isspace s = s"
    by (simp add: dropWhile_eq_self_iff)
  from a have "dropWhile isspace (rev s) = rev s"
    by (simp add: dropWhile_eq_self_iff hd_rev)
  with 1 show ?thesis
    by (simp add: py_strip_def)
qed

lemma py_strip_all_space:
  assumes "\<forall>x\<in>set s. isspace x"
  shows "py_strip s = []"
proof -
  from assms have h: "dropWhile isspace s = []" by simp
  show ?thesis unfolding py_strip_def h by simp
qed

lemma py_strip_idem: "py_strip (py_strip s) = py_strip s"
proof (cases "py_strip s = []")
  case True
  have "py_strip [] = []" by (simp add: py_strip_def)
  with True show ?thesis by simp
next
  case False
  with py_strip_ends [of s] show ?thesis
    by (simp add: py_strip_fixed)
qed

lemma py_strip_pad:
  assumes "list_all isspace a" "list_all isspace b"
  shows "py_strip (a @ s @ b) = py_strip s"
proof -
  from assms have a: "\<And>x. x \<in> set a \<Longrightarrow> isspace x" and b: "\<And>x. x \<in> set (rev b) \<Longrightarrow> isspace x"
    by (auto simp: list_all_iff)
  show ?thesis
  proof (cases "\<forall>x\<in>set s. isspace x")
    case True
    with a b have "\<forall>x\<in>set (a @ s @ b). isspace x" by auto
    then have "py_strip (a @ s @ b) = []" by (rule py_strip_all_space)
    with True show ?thesis by (simp add: py_strip_all_space)
  next
    case False
    have 1: "dropWhile isspace (a @ s @ b) = dropWhile isspace (s @ b)"
      using a by (rule dropWhile_append2)
    from False have 2: "dropWhile isspace (s @ b) = dropWhile isspace s @ b"
      by (auto simp: dropWhile_append)
    have 3: "dropWhile isspace (rev b @ rev (dropWhile isspace s))
               = dropWhile isspace (rev (dropWhile isspace s))"
      using b by (rule dropWhile_append2)
    show ?thesis
      unfolding py_strip_def 1 2 rev_append 3 ..
  qed
qed

lemma py_strip_blank: "list_all isspace s \<Longrightarrow> py_strip (py_lower s) = []"
  by (rule py_strip_all_space) (simp add: list_all_iff py_lower_def isspace_lower_ch)

section \<open>The dispatcher and the session, call by call\<close>











lemma click_twice:
  "action_type intent = ''click'' \<Longrightarrow>
   dict_get_default (parameters intent) ''clicks'' (PInt 1) = PInt 2 \<Longrightarrow>
   click_at_position eng (dict_get (parameters intent) ''x'') (dict_get (parameters intent) ''y'')
      (dict_get_default (parameters intent) ''button'' (PStr ''left'')) w = (Inr first, w1) \<Longrightarrow>
   click_at_position eng (dict_get (parameters intent) ''x'') (dict_get (parameters intent) ''y'')
      (dict_get_default (parameters intent) ''button'' (PStr ''left'')) w1 = (Inr second, w2) \<Longrightarrow>
   execute_action eng intent w
     = (Inr second, w2,
        [Click (dict_get (parameters intent) ''x'') (dict_get (parameters intent) ''y'')
           (dict_get_default (parameters intent) ''button'' (PStr ''left'')),
         Sleep (1 / 10),
         Click (dict_get (parameters intent) ''x'') (dict_get (parameters intent) ''y'')
           (dict_get_default (parameters intent) ''button'' (PStr ''left''))])"
  by (simp add: execute_action_def execute_body_def Let_def)

lemma click_once:
  "action_type intent = ''click'' \<Longrightarrow>
   dict_get_default (parameters intent) ''clicks'' (PInt 1) \<noteq> PInt 2 \<Longrightarrow>
   click_at_position eng (dict_get (parameters intent) ''x'') (dict_get (parameters intent) ''y'')
      (dict_get_default (parameters intent) ''button'' (PStr ''left'')) w = (Inr r, w1) \<Longrightarrow>
   execute_action eng intent w
     = (Inr r, w1,
        [Click (dict_get (parameters intent) ''x'') (dict_get (parameters intent) ''y'')
           (dict_get_default (parameters intent) ''button'' (PStr ''left''))])"
  by (simp add: execute_action_def execute_body_def Let_def)

lemma process_blank:
  "py_strip command = [] \<Longrightarrow>
   process_command abspath eng st command = (Inr (StatusError, PleaseEnterACommand, Some []), st)"
  by (simp add: process_command_def)

lemma process_unparsed:
  "py_strip command \<noteq> [] \<Longrightarrow> parse_command command = Inr None \<Longrightarrow>
   process_command abspath eng st command
     = (Inr (StatusUnableToParse, CouldNotUnderstand command, Some []), st)"
  by (simp add: process_command_def)

lemma process_history:
  "execution_history (snd (process_command abspath eng st command)) = execution_history st
   \<or> (\<exists>i r. parse_command command = Inr (Some i)
        \<and> execution_history (snd (process_command abspath eng st command))
            = execution_history st @ [(command, r)])"
  by (auto simp: process_command_def record_entry_def Let_def
      split: sum.splits option.splits prod.splits)

section \<open>The execution history\<close>



section \<open>Soundness of the matcher\<close>

lemma lits_sound:
  "lits t k s g = Some res \<Longrightarrow> \<exists>w s'. s = w @ s' \<and> map lower_ch w = t \<and> k s' g = Some res"
proof (induction t arbitrary: s)
  case Nil
  then have "s = [] @ s \<and> map lower_ch [] = [] \<and> k s g = Some res" by simp
  then show ?case by (intro exI)
next
  case (Cons c cs)
  show ?case
  proof (cases s)
    case Nil
    with Cons.prems show ?thesis by simp
  next
    case (Cons x xs)
    with Cons.prems have eq: "lower_ch x = c" and rest: "lits cs k xs g = Some res"
      by (simp_all split: if_splits)
    from Cons.IH [OF rest] obtain w s' where
      1: "xs = w @ s'" "map lower_ch w = cs" "k s' g = Some res"
      by (elim exE conjE)
    with eq Cons have "s = (x # w) @ s' \<and> map lower_ch (x # w) = c # cs \<and> k s' g = Some res"
      by simp
    then show ?thesis by (intro exI)
  qed
qed

lemma rep_sound:
  "rep c k s g = Some res \<Longrightarrow>
   \<exists>w s'. s = w @ s' \<and> (\<forall>x\<in>set w. cmatch c x) \<and> k s' g = Some res"
proof (induction s)
  case Nil
  then show ?case by simp
next
  case (Cons x xs)
  show ?case
  proof (cases "cmatch c x \<and> rep c k xs g \<noteq> None")
    case True
    with Cons.prems have "rep c k xs g = Some res" by auto
    with Cons.IH obtain w s' where "xs = w @ s'" "\<forall>x\<in>set w. cmatch c x" "k s' g = Some res"
      by blast
    with True have "x # xs = (x # w) @ s' \<and> (\<forall>y\<in>set (x # w). cmatch c y) \<and> k s' g = Some res"
      by simp
    then show ?thesis by blast
  next
    case False
    with Cons.prems have "k (x # xs) g = Some res"
      by (auto split: if_splits option.splits)
    then have "x # xs = [] @ (x # xs) \<and> (\<forall>y\<in>set []. cmatch c y) \<and> k (x # xs) g = Some res"
      by simp
    then show ?thesis by blast
  qed
qed

lemma one_sound:
  "one c k s g = Some res \<Longrightarrow> \<exists>x s'. s = x # s' \<and> cmatch c x \<and> k s' g = Some res"
  by (cases s) (auto split: if_splits)

lemma lang_SeqI: "u \<in> lang a \<Longrightarrow> v \<in> lang b \<Longrightarrow> u @ v \<in> lang (Seq a b)"
  by auto

lemma must_Seq:
  "\<forall>n. n \<in> must a \<or> g n \<noteq> None \<longrightarrow> g1 n \<noteq> None \<Longrightarrow>
   \<forall>n. n \<in> must b \<or> g1 n \<noteq> None \<longrightarrow> g2 n \<noteq> None \<Longrightarrow>
   \<forall>n. n \<in> must (Seq a b) \<or> g n \<noteq> None \<longrightarrow> g2 n \<noteq> None"
  by simp

lemma must_Alt1:
  "\<forall>n. n \<in> must a \<or> g n \<noteq> None \<longrightarrow> g1 n \<noteq> None \<Longrightarrow>
   \<forall>n. n \<in> must (Alt a b) \<or> g n \<noteq> None \<longrightarrow> g1 n \<noteq> None"
  by simp

lemma must_Alt2:
  "\<forall>n. n \<in> must b \<or> g n \<noteq> None \<longrightarrow> g1 n \<noteq> None \<Longrightarrow>
   \<forall>n. n \<in> must (Alt a b) \<or> g n \<noteq> None \<longrightarrow> g1 n \<noteq> None"
  by simp

lemma must_Grp:
  "\<forall>j. j \<in> must a \<or> g j \<noteq> None \<longrightarrow> g' j \<noteq> None \<Longrightarrow>
   \<forall>j. j \<in> must (Grp n a) \<or> g j \<noteq> None \<longrightarrow> (g'(n \<mapsto> w)) j \<noteq> None"
  by simp

lemma rmatch_sound:
  assumes "rmatch r k s g = Some res"
    and "holds_on P g"
    and "set s \<subseteq> S"
    and "\<And>n b w. (n, b) \<in> set (groups_of r) \<Longrightarrow> w \<in> lang b \<Longrightarrow> set w \<subseteq> S \<Longrightarrow> P n w"
  shows "\<exists>w s' g'. s = w @ s' \<and> w \<in> lang r \<and> holds_on P g'
           \<and> (\<forall>n. n \<in> must r \<or> g n \<noteq> None \<longrightarrow> g' n \<noteq> None) \<and> k s' g' = Some res"
  using assms
proof (induction r arbitrary: k s g res)
  case (Str t)
  from Str.prems(1) have "lits t k s g = Some res" by simp
  from lits_sound [OF this]
  obtain w s' where "s = w @ s'" "map lower_ch w = t" "k s' g = Some res"
    by blast
  with Str.prems(2) have "s = w @ s' \<and> w \<in> lang (Str t) \<and> holds_on P g
      \<and> (\<forall>n. n \<in> must (Str t) \<or> g n \<noteq> None \<longrightarrow> g n \<noteq> None) \<and> k s' g = Some res"
    by simp
  then show ?case by blast
next
  case (Cls c)
  from Cls.prems(1) have "one c k s g = Some res" by simp
  from one_sound [OF this]
  obtain x s' where "s = x # s'" "cmatch c x" "k s' g = Some res"
    by blast
  with Cls.prems(2) have "s = [x] @ s' \<and> [x] \<in> lang (Cls c) \<and> holds_on P g
      \<and> (\<forall>n. n \<in> must (Cls c) \<or> g n \<noteq> None \<longrightarrow> g n \<noteq> None) \<and> k s' g = Some res"
    by simp
  then show ?case by blast
next
  case (Plus c)
  from Plus.prems(1) have "one c (rep c k) s g = Some res" by simp
  from one_sound [OF this]
  obtain x s1 where 1: "s = x # s1" "cmatch c x" "rep c k s1 g = Some res"
    by blast
  from rep_sound [OF 1(3)]
  obtain w s' where 2: "s1 = w @ s'" "\<forall>x\<in>set w. cmatch c x" "k s' g = Some res"
    by blast
  with 1 Plus.prems(2) have "s = (x # w) @ s' \<and> x # w \<in> lang (Plus c) \<and> holds_on P g
      \<and> (\<forall>n. n \<in> must (Plus c) \<or> g n \<noteq> None \<longrightarrow> g n \<noteq> None) \<and> k s' g = Some res"
    by simp
  then show ?case by blast
next
  case (Star c)
  from Star.prems(1) have "rep c k s g = Some res" by simp
  from rep_sound [OF this]
  obtain w s' where "s = w @ s'" "\<forall>x\<in>set w. cmatch c x" "k s' g = Some res"
    by blast
  with Star.prems(2) have "s = w @ s' \<and> w \<in> lang (Star c) \<and> holds_on P g
      \<and> (\<forall>n. n \<in> must (Star c) \<or> g n \<noteq> None \<longrightarrow> g n \<noteq> None) \<and> k s' g = Some res"
    by simp
  then show ?case by blast
next
  case (Seq a b)
  from Seq.prems(1) have m: "rmatch a (rmatch b k) s g = Some res" by simp
  have ga: "P n w" if "(n, c) \<in> set (groups_of a)" "w \<in> lang c" "set w \<subseteq> S" for n c w
    using Seq.prems(4) [of n c w] that by simp
  have gb: "P n w" if "(n, c) \<in> set (groups_of b)" "w \<in> lang c" "set w \<subseteq> S" for n c w
    using Seq.prems(4) [of n c w] that by simp
  have "\<exists>w s' g'. s = w @ s' \<and> w \<in> lang a \<and> holds_on P g'
           \<and> (\<forall>n. n \<in> must a \<or> g n \<noteq> None \<longrightarrow> g' n \<noteq> None) \<and> rmatch b k s' g' = Some res"
    by (rule Seq.IH(1) [OF m Seq.prems(2) Seq.prems(3) ga])
  then obtain w1 s1 g1 where 1: "s = w1 @ s1" "w1 \<in> lang a" "holds_on P g1"
      "\<forall>n. n \<in> must a \<or> g n \<noteq> None \<longrightarrow> g1 n \<noteq> None" "rmatch b k s1 g1 = Some res"
    by (elim exE conjE)
  from 1(1) Seq.prems(3) have s1: "set s1 \<subseteq> S" by simp
  have "\<exists>w s' g'. s1 = w @ s' \<and> w \<in> lang b \<and> holds_on P g'
           \<and> (\<forall>n. n \<in> must b \<or> g1 n \<noteq> None \<longrightarrow> g' n \<noteq> None) \<and> k s' g' = Some res"
    by (rule Seq.IH(2) [OF 1(5) 1(3) s1 gb])
  then obtain w2 s2 g2 where 2: "s1 = w2 @ s2" "w2 \<in> lang b" "holds_on P g2"
      "\<forall>n. n \<in> must b \<or> g1 n \<noteq> None \<longrightarrow> g2 n \<noteq> None" "k s2 g2 = Some res"
    by (elim exE conjE)
  have a1: "s = (w1 @ w2) @ s2" using 1(1) 2(1) by simp
  have a2: "w1 @ w2 \<in> lang (Seq a b)" using 1(2) 2(2) by (rule lang_SeqI)
  have a3: "\<forall>n. n \<in> must (Seq a b) \<or> g n \<noteq> None \<longrightarrow> g2 n \<noteq> None"
    using 1(4) 2(4) by (rule must_Seq)
  from a1 a2 2(3) a3 2(5) show ?case by blast
next
  case (Alt a b)
  have ga: "P n w" if "(n, c) \<in> set (groups_of a)" "w \<in> lang c" "set w \<subseteq> S" for n c w
    using Alt.prems(4) [of n c w] that by simp
  have gb: "P n w" if "(n, c) \<in> set (groups_of b)" "w \<in> lang c" "set w \<subseteq> S" for n c w
    using Alt.prems(4) [of n c w] that by simp
  show ?case
  proof (cases "rmatch a k s g")
    case None
    with Alt.prems(1) have m: "rmatch b k s g = Some res" by simp
    have "\<exists>w s' g'. s = w @ s' \<and> w \<in> lang b \<and> holds_on P g'
           \<and> (\<forall>n. n \<in> must b \<or> g n \<noteq> None \<longrightarrow> g' n \<noteq> None) \<and> k s' g' = Some res"
      by (rule Alt.IH(2) [OF m Alt.prems(2) Alt.prems(3) gb])
    then obtain w s' g' where 1: "s = w @ s'" "w \<in> lang b" "holds_on P g'"
      "\<forall>n. n \<in> must b \<or> g n \<noteq> None \<longrightarrow> g' n \<noteq> None" "k s' g' = Some res"
      by (elim exE conjE)
    have a2: "w \<in> lang (Alt a b)" using 1(2) by simp
    have a3: "\<forall>n. n \<in> must (Alt a b) \<or> g n \<noteq> None \<longrightarrow> g' n \<noteq> None"
      using 1(4) by (rule must_Alt2)
    from 1(1) a2 1(3) a3 1(5) show ?thesis by blast
  next
    case (Some r)
    with Alt.prems(1) have m: "rmatch a k s g = Some res" by simp
    have "\<exists>w s' g'. s = w @ s' \<and> w \<in> lang a \<and> holds_on P g'
           \<and> (\<forall>n. n \<in> must a \<or> g n \<noteq> None \<longrightarrow> g' n \<noteq> None) \<and> k s' g' = Some res"
      by (rule Alt.IH(1) [OF m Alt.prems(2) Alt.prems(3) ga])
    then obtain w s' g' where 1: "s = w @ s'" "w \<in> lang a" "holds_on P g'"
      "\<forall>n. n \<in> must a \<or> g n \<noteq> None \<longrightarrow> g' n \<noteq> None" "k s' g' = Some res"
      by (elim exE conjE)
    have a2: "w \<in> lang (Alt a b)" using 1(2) by simp
    have a3: "\<forall>n. n \<in> must (Alt a b) \<or> g n \<noteq> None \<longrightarrow> g' n \<noteq> None"
      using 1(4) by (rule must_Alt1)
    from 1(1) a2 1(3) a3 1(5) show ?thesis by blast
  qed
next
  case (Opt a)
  have ga: "P n w" if "(n, c) \<in> set (groups_of a)" "w \<in> lang c" "set w \<subseteq> S" for n c w
    using Opt.prems(4) [of n c w] that by simp
  show ?case
  proof (cases "rmatch a k s g")
    case None
    with Opt.prems(1) have 1: "k s g = Some res" by simp
    have a1: "s = [] @ s" by simp
    have a2: "[] \<in> lang (Opt a)" by simp
    have a3: "\<forall>n. n \<in> must (Opt a) \<or> g n \<noteq> None \<longrightarrow> g n \<noteq> None" by simp
    from a1 a2 Opt.prems(2) a3 1 show ?thesis by blast
  next
    case (Some r)
    with Opt.prems(1) have m: "rmatch a k s g = Some res" by simp
    have "\<exists>w s' g'. s = w @ s' \<and> w \<in> lang a \<and> holds_on P g'
           \<and> (\<forall>n. n \<in> must a \<or> g n \<noteq> None \<longrightarrow> g' n \<noteq> None) \<and> k s' g' = Some res"
      by (rule Opt.IH [OF m Opt.prems(2) Opt.prems(3) ga])
    then obtain w s' g' where 1: "s = w @ s'" "w \<in> lang a" "holds_on P g'"
      "\<forall>n. n \<in> must a \<or> g n \<noteq> None \<longrightarrow> g' n \<noteq> None" "k s' g' = Some res"
      by (elim exE conjE)
    have a2: "w \<in> lang (Opt a)" using 1(2) by simp
    have a3: "\<forall>n. n \<in> must (Opt a) \<or> g n \<noteq> None \<longrightarrow> g' n \<noteq> None"
      using 1(4) by simp
    from 1(1) a2 1(3) a3 1(5) show ?thesis by blast
  qed
next
  case (Grp n a)
  let ?k = "\<lambda>s' g'. k s' (g'(n \<mapsto> take (length s - length s') s))"
  from Grp.prems(1) have m: "rmatch a ?k s g = Some res" by simp
  have ga: "P j w" if "(j, c) \<in> set (groups_of a)" "w \<in> lang c" "set w \<subseteq> S" for j c w
    using Grp.prems(4) [of j c w] that by simp
  have "\<exists>w s' g'. s = w @ s' \<and> w \<in> lang a \<and> holds_on P g'
           \<and> (\<forall>j. j \<in> must a \<or> g j \<noteq> None \<longrightarrow> g' j \<noteq> None) \<and> ?k s' g' = Some res"
    by (rule Grp.IH [OF m Grp.prems(2) Grp.prems(3) ga])
  then obtain w s' g' where 1: "s = w @ s'" "w \<in> lang a" "holds_on P g'"
      "\<forall>j. j \<in> must a \<or> g j \<noteq> None \<longrightarrow> g' j \<noteq> None"
      "k s' (g'(n \<mapsto> take (length s - length s') s)) = Some res"
    by (elim exE conjE)
  from 1(1) have tk: "take (length s - length s') s = w" by simp
  from 1(1) Grp.prems(3) have "set w \<subseteq> S" by simp
  with Grp.prems(4) [of n a w] 1(2) have "P n w" by simp
  with 1(3) have h: "holds_on P (g'(n \<mapsto> w))"
    by (simp add: holds_on_def)
  have a2: "w \<in> lang (Grp n a)" using 1(2) by simp
  have a3: "\<forall>j. j \<in> must (Grp n a) \<or> g j \<noteq> None \<longrightarrow> (g'(n \<mapsto> w)) j \<noteq> None"
    using 1(4) by (rule must_Grp)
  from 1(5) tk have a5: "k s' (g'(n \<mapsto> w)) = Some res" by simp
  from 1(1) a2 h a3 a5
  have "s = w @ s' \<and> w \<in> lang (Grp n a) \<and> holds_on P (g'(n \<mapsto> w))
      \<and> (\<forall>j. j \<in> must (Grp n a) \<or> g j \<noteq> None \<longrightarrow> (g'(n \<mapsto> w)) j \<noteq> None)
      \<and> k s' (g'(n \<mapsto> w)) = Some res"
    by (intro conjI)
  then show ?case by (intro exI)
qed

lemma match_at_sound:
  assumes "match_at r s = Some m"
    and "set s \<subseteq> S"
    and "\<And>n b w. (n, b) \<in> set (groups_of r) \<Longrightarrow> w \<in> lang b \<Longrightarrow> set w \<subseteq> S \<Longrightarrow> P n w"
  shows "mgroups m = ngroups r \<and> holds_on P (mtext m) \<and> (\<forall>n\<in>must r. mtext m n \<noteq> None)"
proof -
  let ?k = "\<lambda>(s' :: string) g. Some \<lparr>mgroups = ngroups r, mtext = g\<rparr>"
  from assms(1) have m: "rmatch r ?k s Map.empty = Some m"
    by (simp add: match_at_def)
  have h0: "holds_on P Map.empty"
    by (simp add: holds_on_def)
  have "\<exists>w s' g'. s = w @ s' \<and> w \<in> lang r \<and> holds_on P g'
           \<and> (\<forall>n. n \<in> must r \<longrightarrow> g' n \<noteq> None) \<and> \<lparr>mgroups = ngroups r, mtext = g'\<rparr> = m"
    using rmatch_sound [OF m h0 assms(2) assms(3)] by simp
  then obtain g' where 1: "holds_on P g'" "\<forall>n. n \<in> must r \<longrightarrow> g' n \<noteq> None"
     "\<lparr>mgroups = ngroups r, mtext = g'\<rparr> = m"
    by (elim exE conjE)
  from 1(3) have "mgroups m = ngroups r" "mtext m = g'" by auto
  with 1(1) 1(2) show ?thesis by simp
qed

lemma re_search_suffix:
  "re_search r s = Some m \<Longrightarrow> \<exists>pre suf. s = pre @ suf \<and> match_at r suf = Some m"
proof (induction s)
  case Nil
  then have "[] = [] @ [] \<and> match_at r [] = Some m" by simp
  then show ?case by (intro exI)
next
  case (Cons x xs)
  show ?case
  proof (cases "match_at r (x # xs)")
    case None
    with Cons.prems have "re_search r xs = Some m" by simp
    from Cons.IH [OF this] obtain pre suf where "xs = pre @ suf" "match_at r suf = Some m"
      by (elim exE conjE)
    then have "x # xs = (x # pre) @ suf \<and> match_at r suf = Some m" by simp
    then show ?thesis by (intro exI)
  next
    case (Some m')
    with Cons.prems have "x # xs = [] @ (x # xs) \<and> match_at r (x # xs) = Some m" by simp
    then show ?thesis by (intro exI)
  qed
qed

lemma re_search_sound:
  assumes "re_search r s = Some m"
    and "\<And>n b w. (n, b) \<in> set (groups_of r) \<Longrightarrow> w \<in> lang b \<Longrightarrow> set w \<subseteq> set s \<Longrightarrow> P n w"
  shows "mgroups m = ngroups r \<and> holds_on P (mtext m) \<and> (\<forall>n\<in>must r. mtext m n \<noteq> None)"
proof -
  from re_search_suffix [OF assms(1)] obtain pre suf where
    1: "s = pre @ suf" "match_at r suf = Some m"
    by (elim exE conjE)
  from 1(1) have "set suf \<subseteq> set s" by simp
  from match_at_sound [OF 1(2) this assms(2)] show ?thesis .
qed

section \<open>The traversal of the rule table\<close>

lemma scan_rules_first:
  "scan_rules act rules c = first_result (map (\<lambda>(p, t). (act, p, t)) rules) c"
  by (induction rules) (auto simp: try_rule_def split: option.splits sum.splits)

lemma first_result_append:
  "first_result (xs @ ys) c
     = (case first_result xs c of Inr None \<Rightarrow> first_result ys c | other \<Rightarrow> other)"
  by (induction xs) (auto split: option.splits sum.splits)

lemma scan_categories_first:
  "scan_categories cats c
     = first_result (concat (map (\<lambda>(act, rules). map (\<lambda>(p, t). (act, p, t)) rules) cats)) c"
  by (induction cats)
    (auto simp: scan_rules_first first_result_append split: option.splits sum.splits)

lemma parse_command_first:
  "parse_command c =
     (if py_strip (py_lower c) = [] then Inr None
      else first_result rule_list (py_strip (py_lower c)))"
  by (simp add: parse_command_def rule_list_def scan_categories_first Let_def)

lemma first_result_skip:
  "k \<le> length rs \<Longrightarrow> \<forall>j<k. try_rule (rs ! j) c = Inr None \<Longrightarrow>
   first_result rs c = first_result (drop k rs) c"
proof (induction k arbitrary: rs)
  case 0
  then show ?case by simp
next
  case (Suc k)
  then obtain r rs' where rs: "rs = r # rs'"
    by (cases rs) auto
  from Suc.prems(2) have "try_rule (rs ! 0) c = Inr None" by blast
  with rs have r: "try_rule r c = Inr None" by simp
  have "\<forall>j<k. try_rule (rs' ! j) c = Inr None"
  proof (intro allI impI)
    fix j assume "j < k"
    then have "Suc j < Suc k" by simp
    with Suc.prems(2) have "try_rule (rs ! Suc j) c = Inr None" by blast
    with rs show "try_rule (rs' ! j) c = Inr None" by simp
  qed
  moreover from Suc.prems(1) rs have "k \<le> length rs'" by simp
  ultimately have "first_result rs' c = first_result (drop k rs') c"
    by (rule Suc.IH [rotated])
  with rs r show ?case by simp
qed

lemma first_result_Some:
  "first_result rs c = Inr (Some i) \<longleftrightarrow>
     (\<exists>k<length rs. try_rule (rs ! k) c = Inr (Some i) \<and> (\<forall>j<k. try_rule (rs ! j) c = Inr None))"
proof (induction rs)
  case Nil
  then show ?case by simp
next
  case (Cons r rs)
  show ?case
  proof (cases "try_rule r c = Inr None")
    case True
    have "(\<exists>k<length (r # rs). try_rule ((r # rs) ! k) c = Inr (Some i)
             \<and> (\<forall>j<k. try_rule ((r # rs) ! j) c = Inr None))
          \<longleftrightarrow> (\<exists>k<length rs. try_rule (rs ! k) c = Inr (Some i)
             \<and> (\<forall>j<k. try_rule (rs ! j) c = Inr None))" (is "?L \<longleftrightarrow> ?R")
    proof
      assume ?L
      then obtain k where k: "k < length (r # rs)" "try_rule ((r # rs) ! k) c = Inr (Some i)"
        "\<forall>j<k. try_rule ((r # rs) ! j) c = Inr None" by blast
      with True obtain k' where k': "k = Suc k'" by (cases k) auto
      have "\<forall>j<k'. try_rule (rs ! j) c = Inr None"
      proof (intro allI impI)
        fix j assume "j < k'"
        with k' have "Suc j < k" by simp
        with k(3) have "try_rule ((r # rs) ! Suc j) c = Inr None" by blast
        then show "try_rule (rs ! j) c = Inr None" by simp
      qed
      with k k' have "k' < length rs \<and> try_rule (rs ! k') c = Inr (Some i)
          \<and> (\<forall>j<k'. try_rule (rs ! j) c = Inr None)" by simp
      then show ?R by (intro exI)
    next
      assume ?R
      then obtain k where k: "k < length rs" "try_rule (rs ! k) c = Inr (Some i)"
        "\<forall>j<k. try_rule (rs ! j) c = Inr None" by blast
      have "\<forall>j<Suc k. try_rule ((r # rs) ! j) c = Inr None"
      proof (intro allI impI)
        fix j assume j: "j < Suc k"
        show "try_rule ((r # rs) ! j) c = Inr None"
        proof (cases j)
          case 0
          with True show ?thesis by simp
        next
          case (Suc j')
          with j k(3) show ?thesis by simp
        qed
      qed
      with k have "Suc k < length (r # rs) \<and> try_rule ((r # rs) ! Suc k) c = Inr (Some i)
          \<and> (\<forall>j<Suc k. try_rule ((r # rs) ! j) c = Inr None)" by simp
      then show ?L by (intro exI)
    qed
    with True Cons.IH show ?thesis by simp
  next
    case False
    have "(\<exists>k<length (r # rs). try_rule ((r # rs) ! k) c = Inr (Some i)
             \<and> (\<forall>j<k. try_rule ((r # rs) ! j) c = Inr None))
          \<longleftrightarrow> try_rule r c = Inr (Some i)" (is "?L \<longleftrightarrow> ?R")
    proof
      assume ?L
      then obtain k where k: "k < length (r # rs)" "try_rule ((r # rs) ! k) c = Inr (Some i)"
        "\<forall>j<k. try_rule ((r # rs) ! j) c = Inr None" by blast
      have "k = 0"
      proof (rule ccontr)
        assume "k \<noteq> 0"
        then have "0 < k" by simp
        with k(3) have "try_rule ((r # rs) ! 0) c = Inr None" by blast
        with False show False by simp
      qed
      with k(2) show ?R by simp
    next
      assume ?R
      then have "0 < length (r # rs) \<and> try_rule ((r # rs) ! 0) c = Inr (Some i)
          \<and> (\<forall>j<0. try_rule ((r # rs) ! j) c = Inr None)" by simp
      then show ?L by (intro exI)
    qed
    moreover from False have "first_result (r # rs) c = try_rule r c"
      by (simp split: sum.splits option.splits)
    ultimately show ?thesis by simp
  qed
qed

lemma scan_rules_result:
  "scan_rules act rules c = Inr (Some i) \<Longrightarrow>
   \<exists>p t m ps. (p, t) \<in> set rules \<and> re_search p c = Some m
      \<and> extract_parameters m t act = Inr (Some ps)
      \<and> i = \<lparr>action_type = act, parameters = ps, confidence = 8 / 10, raw_command = c\<rparr>"
proof (induction rules)
  case Nil
  then show ?case by simp
next
  case (Cons rule rules)
  obtain p t where rule: "rule = (p, t)" by (cases rule)
  show ?case
  proof (cases "\<exists>m ps. re_search p c = Some m \<and> extract_parameters m t act = Inr (Some ps)")
    case True
    then obtain m ps where 1: "re_search p c = Some m" "extract_parameters m t act = Inr (Some ps)"
      by blast
    with Cons.prems rule
    have "i = \<lparr>action_type = act, parameters = ps, confidence = 8 / 10, raw_command = c\<rparr>"
      by simp
    with 1 rule have "(p, t) \<in> set (rule # rules) \<and> re_search p c = Some m
      \<and> extract_parameters m t act = Inr (Some ps)
      \<and> i = \<lparr>action_type = act, parameters = ps, confidence = 8 / 10, raw_command = c\<rparr>"
      by simp
    then show ?thesis by (intro exI)
  next
    case False
    with Cons.prems rule have "scan_rules act rules c = Inr (Some i)"
      by (auto split: option.splits sum.splits)
    from Cons.IH [OF this] obtain p' t' m ps where "(p', t') \<in> set rules"
      "re_search p' c = Some m" "extract_parameters m t' act = Inr (Some ps)"
      "i = \<lparr>action_type = act, parameters = ps, confidence = 8 / 10, raw_command = c\<rparr>"
      by (elim exE conjE)
    then have "(p', t') \<in> set (rule # rules) \<and> re_search p' c = Some m
      \<and> extract_parameters m t' act = Inr (Some ps)
      \<and> i = \<lparr>action_type = act, parameters = ps, confidence = 8 / 10, raw_command = c\<rparr>"
      by simp
    then show ?thesis by (intro exI)
  qed
qed

lemma scan_categories_result:
  "scan_categories cats c = Inr (Some i) \<Longrightarrow>
   \<exists>act rules. (act, rules) \<in> set cats \<and> scan_rules act rules c = Inr (Some i)"
proof (induction cats)
  case Nil
  then show ?case by simp
next
  case (Cons cat cats)
  obtain act rules where cat: "cat = (act, rules)" by (cases cat)
  show ?case
  proof (cases "scan_rules act rules c = Inr (Some i)")
    case True
    with cat have "(act, rules) \<in> set (cat # cats) \<and> scan_rules act rules c = Inr (Some i)"
      by simp
    then show ?thesis by (intro exI)
  next
    case False
    with Cons.prems cat have "scan_categories cats c = Inr (Some i)"
      by (auto split: option.splits sum.splits)
    from Cons.IH [OF this] obtain act' rules' where
      "(act', rules') \<in> set cats" "scan_rules act' rules' c = Inr (Some i)"
      by (elim exE conjE)
    then have "(act', rules') \<in> set (cat # cats) \<and> scan_rules act' rules' c = Inr (Some i)"
      by simp
    then show ?thesis by (intro exI)
  qed
qed

lemma lowered_fixed: "x \<in> set (py_strip (py_lower c)) \<Longrightarrow> lower_ch x = x"
proof -
  assume "x \<in> set (py_strip (py_lower c))"
  then have "x \<in> set (py_lower c)"
    unfolding py_strip_def by (auto dest!: set_dropWhileD)
  then show ?thesis
    by (auto simp: py_lower_def lower_ch_idem)
qed

section \<open>Scroll intents\<close>

lemma up_down_group:
  assumes s: "re_search r cmd = Some m"
    and low: "\<forall>x\<in>set cmd. lower_ch x = x"
    and gs: "\<forall>b. (k, b) \<in> set (groups_of r) \<longrightarrow> b = Alt (Str ''up'') (Str ''down'')"
    and mu: "k \<in> must r"
  shows "mgroups m = ngroups r \<and> (mtext m k = Some ''up'' \<or> mtext m k = Some ''down'')"
proof -
  define P where "P = (\<lambda>(n::nat) (w::string). n = k \<longrightarrow> w = ''up'' \<or> w = ''down'')"
  have g: "P n w" if "(n, b) \<in> set (groups_of r)" "w \<in> lang b" "set w \<subseteq> set cmd" for n b w
    unfolding P_def
  proof
    assume "n = k"
    with that(1) gs have "b = Alt (Str ''up'') (Str ''down'')" by blast
    with that(2) have 1: "map lower_ch w = ''up'' \<or> map lower_ch w = ''down''" by simp
    from that(3) low have "\<forall>x\<in>set w. lower_ch x = x" by blast
    then have "map lower_ch w = w" by (simp add: map_idI)
    with 1 show "w = ''up'' \<or> w = ''down''" by simp
  qed
  have "mgroups m = ngroups r \<and> holds_on P (mtext m) \<and> (\<forall>n\<in>must r. mtext m n \<noteq> None)"
    using s g by (rule re_search_sound)
  with mu have 1: "mgroups m = ngroups r" "holds_on P (mtext m)" "mtext m k \<noteq> None"
    by simp_all
  from 1(3) obtain d where d: "mtext m k = Some d" by blast
  with 1(2) have "d = ''up'' \<or> d = ''down''"
    by (simp add: holds_on_def P_def)
  with d 1(1) show ?thesis by simp
qed

lemma scroll_direction_groups:
  assumes "re_search scroll_direction_pattern cmd = Some m"
    and "\<forall>x\<in>set cmd. lower_ch x = x"
  shows "mgroups m = 2 \<and> (mtext m 1 = Some ''up'' \<or> mtext m 1 = Some ''down'')"
proof -
  have "\<forall>b. (1, b) \<in> set (groups_of scroll_direction_pattern)
          \<longrightarrow> b = Alt (Str ''up'') (Str ''down'')"
    by (simp add: scroll_direction_pattern_def up_down_def)
  moreover have "1 \<in> must scroll_direction_pattern"
    by (simp add: scroll_direction_pattern_def up_down_def)
  moreover have "ngroups scroll_direction_pattern = 2"
    by (simp add: scroll_direction_pattern_def up_down_def)
  ultimately show ?thesis
    using up_down_group [OF assms, of 1] by simp
qed

lemma scroll_count_groups:
  assumes "re_search scroll_count_pattern cmd = Some m"
    and "\<forall>x\<in>set cmd. lower_ch x = x"
  shows "mgroups m = 2 \<and> (mtext m 2 = Some ''up'' \<or> mtext m 2 = Some ''down'')"
proof -
  have "\<forall>b. (2, b) \<in> set (groups_of scroll_count_pattern)
          \<longrightarrow> b = Alt (Str ''up'') (Str ''down'')"
    by (simp add: scroll_count_pattern_def up_down_def)
  moreover have "2 \<in> must scroll_count_pattern"
    by (simp add: scroll_count_pattern_def up_down_def)
  moreover have "ngroups scroll_count_pattern = 2"
    by (simp add: scroll_count_pattern_def up_down_def)
  ultimately show ?thesis
    using up_down_group [OF assms, of 2] by simp
qed

lemma extract_direction:
  assumes "extract_parameters m ''direction'' act = Inr (Some ps)" and "mgroups m = 2"
  shows "\<exists>n. ps = [(''direction'', opt_str (mtext m 1)), (''clicks'', PInt n)]
           \<and> (mtext m 2 = None \<longrightarrow> n = 3)"
  using assms
  by (auto simp: extract_parameters_def extract_body_def group_def bind_exc_def
      split: sum.splits if_splits)

lemma extract_direction_absent:
  assumes "mgroups m = 2" and "mtext m 2 = None"
  shows "extract_parameters m ''direction'' act
           = Inr (Some [(''direction'', opt_str (mtext m 1)), (''clicks'', PInt 3)])"
  using assms
  by (simp add: extract_parameters_def extract_body_def group_def bind_exc_def)

lemma extract_direction_count:
  assumes "extract_parameters m ''direction_count'' act = Inr (Some ps)" and "mgroups m = 2"
  shows "\<exists>n. ps = [(''direction'', opt_str (mtext m 2)), (''clicks'', PInt n)]"
  using assms
  by (auto simp: extract_parameters_def extract_body_def group_def bind_exc_def
      split: sum.splits if_splits)

lemma scan_rules_action:
  "scan_rules act rules c = Inr (Some i) \<Longrightarrow> action_type i = act"
  using scan_rules_result [of act rules c i] by auto

lemma scroll_intent_source:
  assumes "parse_command c = Inr (Some i)" and "action_type i = ''scroll''"
  shows "scan_rules ''scroll''
           [(scroll_direction_pattern, ''direction''), (scroll_count_pattern, ''direction_count'')]
           (py_strip (py_lower c)) = Inr (Some i)"
proof -
  let ?cmd = "py_strip (py_lower c)"
  from assms(1) have "scan_categories patterns ?cmd = Inr (Some i)"
    by (simp add: parse_command_def Let_def split: if_splits)
  from scan_categories_result [OF this] obtain act rules where
    1: "(act, rules) \<in> set patterns" "scan_rules act rules ?cmd = Inr (Some i)"
    by (elim exE conjE)
  from scan_rules_action [OF 1(2)] assms(2) have act: "act = ''scroll''" by simp
  with 1(1) have "rules = [(scroll_direction_pattern, ''direction''),
      (scroll_count_pattern, ''direction_count'')]"
    by (simp add: patterns_def)
  with 1(2) act show ?thesis by simp
qed

lemma scroll_intent_shape:
  assumes "parse_command c = Inr (Some i)" and "action_type i = ''scroll''"
  shows "\<exists>d n. parameters i = [(''direction'', PStr d), (''clicks'', PInt n)]
           \<and> (d = ''up'' \<or> d = ''down'')"
proof -
  let ?cmd = "py_strip (py_lower c)"
  have low: "\<forall>x\<in>set ?cmd. lower_ch x = x"
    using lowered_fixed by blast
  from scan_rules_result [OF scroll_intent_source [OF assms]] obtain p t m ps where
    1: "(p, t) \<in> set [(scroll_direction_pattern, ''direction''),
          (scroll_count_pattern, ''direction_count'')]"
       "re_search p ?cmd = Some m" "extract_parameters m t ''scroll'' = Inr (Some ps)"
       "i = \<lparr>action_type = ''scroll'', parameters = ps, confidence = 8 / 10, raw_command = ?cmd\<rparr>"
    by (elim exE conjE)
  from 1(4) have ps: "parameters i = ps" by simp
  from 1(1) consider "p = scroll_direction_pattern" "t = ''direction''"
    | "p = scroll_count_pattern" "t = ''direction_count''"
    by auto
  then show ?thesis
  proof cases
    case 1
    with \<open>re_search p ?cmd = Some m\<close> low
    have g: "mgroups m = 2" "mtext m 1 = Some ''up'' \<or> mtext m 1 = Some ''down''"
      using scroll_direction_groups by blast+
    from \<open>extract_parameters m t ''scroll'' = Inr (Some ps)\<close> 1 g(1) obtain n where
      "ps = [(''direction'', opt_str (mtext m 1)), (''clicks'', PInt n)]"
      using extract_direction by blast
    with g(2) ps show ?thesis
      by (auto simp: opt_str_def)
  next
    case 2
    with \<open>re_search p ?cmd = Some m\<close> low
    have g: "mgroups m = 2" "mtext m 2 = Some ''up'' \<or> mtext m 2 = Some ''down''"
      using scroll_count_groups by blast+
    from \<open>extract_parameters m t ''scroll'' = Inr (Some ps)\<close> 2 g(1) obtain n where
      "ps = [(''direction'', opt_str (mtext m 2)), (''clicks'', PInt n)]"
      using extract_direction_count by blast
    with g(2) ps show ?thesis
      by (auto simp: opt_str_def)
  qed
qed

lemma dispatch_scroll:
  "action_type i = ''scroll'' \<Longrightarrow>
   snd (snd (execute_action eng i w))
     = [Scroll (dict_get (parameters i) ''direction'')
          (dict_get_default (parameters i) ''clicks'' (PInt 3))]"
  by (simp add: execute_action_def execute_body_def Let_def split: prod.splits sum.splits)

lemma engines_accept_direction:
  assumes "d = ''up'' \<or> d = ''down''"
  shows "message (fst (AutomationEngine_scroll gui_scroll d n w)) \<noteq> ''Invalid scroll direction: '' @ d"
    and "MockAutomationEngine_scroll d n
           = \<lparr>success = True,
              message = ''[SIMULATED] Scrolled '' @ d @ '' '' @ str_int n @ '' clicks'',
              result_type = ''scroll''\<rparr>"
proof -
  have l: "py_lower ''up'' = ''up''" "py_lower ''down'' = ''down''"
    by (simp_all add: py_lower_def lower_ch_def cp_def)
  from assms l show "message (fst (AutomationEngine_scroll gui_scroll d n w))
      \<noteq> ''Invalid scroll direction: '' @ d"
    by (auto simp: AutomationEngine_scroll_def Let_def split: prod.splits option.splits)
  from assms l show "MockAutomationEngine_scroll d n
           = \<lparr>success = True,
              message = ''[SIMULATED] Scrolled '' @ d @ '' '' @ str_int n @ '' clicks'',
              result_type = ''scroll''\<rparr>"
    by (auto simp: MockAutomationEngine_scroll_def)
qed

section \<open>Matching against a long run of one digit\<close>

lemma rep_replicate:
  "cmatch c x \<Longrightarrow> rep c k rest g \<noteq> None \<Longrightarrow> rep c k (replicate n x @ rest) g = rep c k rest g"
  by (induction n) (auto split: option.splits)

lemma seven_facts:
  "lower_ch (CHR ''7'') = CHR ''7''" "isdecimal (CHR ''7'')" "\<not> isspace (CHR ''7'')"
  by (simp_all add: lower_ch_def isdecimal_def isspace_def cp_def)

lemma long_number_Cons: "long_number = CHR ''7'' # replicate 4300 (CHR ''7'')"
proof -
  have "(4301 :: nat) = Suc 4300" by simp
  then show ?thesis unfolding long_number_def by (simp only: replicate_Suc)
qed

lemma long_number_simps:
  "length long_number = 4301"
  "long_number \<noteq> []"
  "list_all isdecimal long_number"
  "py_lower long_number = long_number"
  "hd long_number = CHR ''7''"
  "last long_number = CHR ''7''"
  "hd (long_number @ rest) = CHR ''7''"
  "last (xs @ long_number) = CHR ''7''"
  by (simp_all add: long_number_def list_all_iff seven_facts py_lower_def)

lemma lits_long_number:
  "c \<noteq> CHR ''7'' \<Longrightarrow> lits (c # cs) k (long_number @ rest) g = None"
  "c \<noteq> CHR ''7'' \<Longrightarrow> lits (c # cs) k long_number g = None"
  by (simp_all add: long_number_Cons seven_facts)

lemma space_long_number:
  "one Space k (long_number @ rest) g = None"
  "one Space k long_number g = None"
  "rep Space k (long_number @ rest) g = k (long_number @ rest) g"
  "rep Space k long_number g = k long_number g"
  by (simp_all add: long_number_Cons seven_facts)

lemma digits_long_number:
  "rep Digit k rest g \<noteq> None \<Longrightarrow>
   one Digit (rep Digit k) (long_number @ rest) g = rep Digit k rest g"
  "k [] g \<noteq> None \<Longrightarrow> one Digit (rep Digit k) long_number g = k [] g"
proof -
  have d: "cmatch Digit (CHR ''7'')" by (simp add: seven_facts)
  show "one Digit (rep Digit k) (long_number @ rest) g = rep Digit k rest g"
    if "rep Digit k rest g \<noteq> None"
    using rep_replicate [OF d that, of 4300] by (simp add: long_number_Cons seven_facts)
  show "one Digit (rep Digit k) long_number g = k [] g" if "k [] g \<noteq> None"
  proof -
    from that have "rep Digit k [] g \<noteq> None" by simp
    from rep_replicate [OF d this, of 4300] show ?thesis
      by (simp add: long_number_Cons seven_facts)
  qed
qed

lemma take_long_number:
  "take 4301 (long_number @ rest) = long_number"
  "take 4301 long_number = long_number"
  by (simp_all add: long_number_simps)

lemma py_int_long_number:
  "exc_class_of (case py_int (Some long_number) of Inl e \<Rightarrow> e) = ValueError"
  "\<exists>e. py_int (Some long_number) = Inl e \<and> exc_class_of e = ValueError"
  by (simp_all add: py_int_def long_number_simps max_str_digits_def)

section \<open>Two commands with a number too long to convert\<close>

lemmas long_number_rules = long_number_simps lits_long_number space_long_number
  digits_long_number take_long_number seven_facts

lemmas char_rules = lower_ch_def cp_def isspace_def isdecimal_def

lemmas extract_rules = extract_parameters_def extract_body_def coordinates_of_def group_def
  py_int_def bind_exc_def max_str_digits_def digit_val_def

lemma rule_list_eq:
  "rule_list =
    [(''click'', right_click_pattern, ''right_coordinates''),
     (''click'', double_click_pattern, ''double_coordinates''),
     (''click'', click_pattern, ''coordinates''),
     (''type'', quoted_after ''type'', ''text''),
     (''type'', quoted_after ''write'', ''text''),
     (''type'', quoted_after ''enter'', ''text''),
     (''type'', quoted_after ''input'', ''text''),
     (''key'', key_after ''press'', ''single_key''),
     (''key'', key_after ''hit'', ''single_key''),
     (''key'', cat ([Str ''press'', ws1] @ combo), ''key_combo''),
     (''key'', cat combo, ''key_combo''),
     (''scroll'', scroll_direction_pattern, ''direction''),
     (''scroll'', scroll_count_pattern, ''direction_count''),
     (''move'',
        cat ([Str ''move'', ws1, Opt (cat [Str ''mouse'', ws1]), Opt (cat [Str ''to'', ws1])]
             @ xy_tail), ''coordinates''),
     (''move'',
        cat ([Str ''move'', ws1, Opt (cat [Str ''cursor'', ws1]), Opt (cat [Str ''to'', ws1])]
             @ xy_tail), ''coordinates''),
     (''screenshot'',
        cat [Str ''take'', ws1, Opt (cat [Str ''a'', ws1]), Str ''screenshot''], ''simple''),
     (''screenshot'', cat [Str ''capture'', ws1, Str ''screen''], ''simple''),
     (''screenshot'', Str ''screenshot'', ''simple'')]"
  by (simp add: rule_list_def patterns_def)

lemma str_nat_4301: "str_nat 4301 = ''4301''"
  by code_simp

lemma long_x_normal: "py_strip (py_lower long_x_command) = long_x_command"
proof -
  have "py_lower long_x_command = long_x_command"
    using long_number_simps(4) by (simp add: long_x_command_def py_lower_def char_rules)
  moreover have "py_strip long_x_command = long_x_command"
    by (rule py_strip_fixed) (simp_all add: long_x_command_def char_rules)
  ultimately show ?thesis by simp
qed

lemma long_x_right:
  "re_search right_click_pattern long_x_command
     = Some \<lparr>mgroups = 2, mtext = [1 \<mapsto> long_number, 2 \<mapsto> ''5'']\<rparr>"
  by (simp add: long_x_command_def right_click_pattern_def xy_tail_def match_at_def char_rules
      long_number_rules)

lemma long_x_double:
  "re_search double_click_pattern long_x_command
     = Some \<lparr>mgroups = 2, mtext = [1 \<mapsto> ''1'', 2 \<mapsto> ''2'']\<rparr>"
  by (simp add: long_x_command_def double_click_pattern_def xy_tail_def match_at_def char_rules
      long_number_rules)

lemma long_x_error:
  "extract_body \<lparr>mgroups = 2, mtext = [1 \<mapsto> long_number, 2 \<mapsto> ''5'']\<rparr> ''right_coordinates''
     = Inl (Raised ValueError
         ''Exceeds the limit (4300 digits) for integer string conversion: value has 4301 digits; use sys.set_int_max_str_digits() to increase the limit'')"
  by (simp add: extract_rules long_number_simps str_nat_4301 del: str_nat.simps)

lemma long_x_second:
  "try_rule (''click'', double_click_pattern, ''double_coordinates'')
       long_x_command
     = Inr (Some \<lparr>action_type = ''click'',
                   parameters = [(''x'', PInt 1), (''y'', PInt 2), (''button'', PStr ''left''),
                                 (''clicks'', PInt 2)],
                   confidence = 8 / 10,
                   raw_command = long_x_command\<rparr>)"
  by (simp add: try_rule_def long_x_double extract_rules char_rules)

lemma long_x_first:
  "try_rule (''click'', right_click_pattern, ''right_coordinates'')
       long_x_command = Inr None"
  by (simp add: try_rule_def long_x_right extract_rules char_rules long_number_simps
      str_nat_4301 del: str_nat.simps)

lemma long_x_parse:
  "parse_command long_x_command
     = Inr (Some \<lparr>action_type = ''click'',
                   parameters = [(''x'', PInt 1), (''y'', PInt 2), (''button'', PStr ''left''),
                                 (''clicks'', PInt 2)],
                   confidence = 8 / 10,
                   raw_command = long_x_command\<rparr>)"
  proof -
  have "long_x_command \<noteq> []" by (simp add: long_x_command_def)
  then show ?thesis
    by (simp add: parse_command_first long_x_normal rule_list_eq long_x_first long_x_second)
qed

lemma long_y_normal: "py_strip (py_lower long_y_command) = long_y_command"
proof -
  have "py_lower long_y_command = long_y_command"
    using long_number_simps(4) by (simp add: long_y_command_def py_lower_def char_rules)
  moreover have "py_strip long_y_command = long_y_command"
    by (rule py_strip_fixed) (simp_all add: long_y_command_def char_rules long_number_simps)
  ultimately show ?thesis by simp
qed

lemma long_y_right:
  "re_search right_click_pattern long_y_command
     = Some \<lparr>mgroups = 2, mtext = [1 \<mapsto> ''5'', 2 \<mapsto> long_number]\<rparr>"
  by (simp add: long_y_command_def right_click_pattern_def xy_tail_def match_at_def char_rules
      long_number_rules)

lemma long_y_double:
  "re_search double_click_pattern long_y_command
     = Some \<lparr>mgroups = 2, mtext = [1 \<mapsto> ''3'', 2 \<mapsto> ''4'']\<rparr>"
  by (simp add: long_y_command_def double_click_pattern_def xy_tail_def match_at_def char_rules
      long_number_rules)

lemma long_y_first:
  "try_rule (''click'', right_click_pattern, ''right_coordinates'')
       long_y_command = Inr None"
  by (simp add: try_rule_def long_y_right extract_rules char_rules long_number_simps
      str_nat_4301 del: str_nat.simps)

lemma long_y_second:
  "try_rule (''click'', double_click_pattern, ''double_coordinates'')
       long_y_command
     = Inr (Some \<lparr>action_type = ''click'',
                   parameters = [(''x'', PInt 3), (''y'', PInt 4), (''button'', PStr ''left''),
                                 (''clicks'', PInt 2)],
                   confidence = 8 / 10,
                   raw_command = long_y_command\<rparr>)"
  by (simp add: try_rule_def long_y_double extract_rules char_rules)

lemma long_y_parse:
  "parse_command long_y_command
     = Inr (Some \<lparr>action_type = ''click'',
                   parameters = [(''x'', PInt 3), (''y'', PInt 4), (''button'', PStr ''left''),
                                 (''clicks'', PInt 2)],
                   confidence = 8 / 10,
                   raw_command = long_y_command\<rparr>)"
  proof -
  have "long_y_command \<noteq> []" by (simp add: long_y_command_def)
  then show ?thesis
    by (simp add: parse_command_first long_y_normal rule_list_eq long_y_first long_y_second)
qed

section \<open>Claims about the dispatcher, the history and the session\<close>





text \<open>
  C3. For a click intent whose \<open>clicks\<close> parameter is 2, when the engine's first click
  returns a result (a success or a failure), the dispatcher makes exactly two click
  calls with the same arguments, with one sleep of a tenth of a second between them,
  and returns what the second call returns: the first result is dropped.  For any
  other click intent it makes exactly one click call, with the button of the intent
  (\<open>left\<close> when there is none), and returns its result.
\<close>

theorem double_click_sequencing:
  assumes "action_type intent = ''click''"
    and "x = dict_get (parameters intent) ''x''"
    and "y = dict_get (parameters intent) ''y''"
    and "button = dict_get_default (parameters intent) ''button'' (PStr ''left'')"
  shows "(dict_get_default (parameters intent) ''clicks'' (PInt 1) = PInt 2 \<longrightarrow>
           (\<forall>first w1 second w2.
              click_at_position eng x y button w = (Inr first, w1)
              \<and> click_at_position eng x y button w1 = (Inr second, w2) \<longrightarrow>
              execute_action eng intent w
                = (Inr second, w2, [Click x y button, Sleep (1 / 10), Click x y button])))
       \<and> (dict_get_default (parameters intent) ''clicks'' (PInt 1) \<noteq> PInt 2 \<longrightarrow>
           (\<forall>r w1. click_at_position eng x y button w = (Inr r, w1) \<longrightarrow>
              execute_action eng intent w = (Inr r, w1, [Click x y button])))"
  using assms click_twice [of intent eng w] click_once [of intent eng w] by simp

theorem double_click_sequencing_witness:
  "parse_command ''double click at 5,5''
     = Inr (Some \<lparr>action_type = ''click'',
                   parameters = [(''x'', PInt 5), (''y'', PInt 5), (''button'', PStr ''left''),
                                 (''clicks'', PInt 2)],
                   confidence = 8 / 10, raw_command = ''double click at 5,5''\<rparr>)
   \<and> click_at_position scripted (PInt 5) (PInt 5) (PStr ''left'')
         [Inr failed_result, Inr done_result] = (Inr failed_result, [Inr done_result])
   \<and> click_at_position scripted (PInt 5) (PInt 5) (PStr ''left'') [Inr done_result]
         = (Inr done_result, [])
   \<and> execute_action scripted
        \<lparr>action_type = ''click'',
         parameters = [(''x'', PInt 5), (''y'', PInt 5), (''button'', PStr ''left''),
                       (''clicks'', PInt 2)],
         confidence = 8 / 10, raw_command = ''double click at 5,5''\<rparr>
        [Inr failed_result, Inr done_result]
     = (Inr done_result, [],
        [Click (PInt 5) (PInt 5) (PStr ''left''), Sleep (1 / 10),
         Click (PInt 5) (PInt 5) (PStr ''left'')])"
proof -
  have p: "parse_command ''double click at 5,5''
     = Inr (Some \<lparr>action_type = ''click'',
                   parameters = [(''x'', PInt 5), (''y'', PInt 5), (''button'', PStr ''left''),
                                 (''clicks'', PInt 2)],
                   confidence = 8 / 10, raw_command = ''double click at 5,5''\<rparr>)"
    by code_simp
  have a: "click_at_position scripted (PInt 5) (PInt 5) (PStr ''left'')
         [Inr failed_result, Inr done_result] = (Inr failed_result, [Inr done_result])"
    by (simp add: scripted_def next_outcome_def)
  have b: "click_at_position scripted (PInt 5) (PInt 5) (PStr ''left'') [Inr done_result]
         = (Inr done_result, [])"
    by (simp add: scripted_def next_outcome_def)
  from a b double_click_sequencing [of
      "\<lparr>action_type = ''click'',
        parameters = [(''x'', PInt 5), (''y'', PInt 5), (''button'', PStr ''left''),
                      (''clicks'', PInt 2)],
        confidence = 8 / 10, raw_command = ''double click at 5,5''\<rparr>"
      "PInt 5" "PInt 5" "PStr ''left''" scripted "[Inr failed_result, Inr done_result]"]
  have c: "execute_action scripted
        \<lparr>action_type = ''click'',
         parameters = [(''x'', PInt 5), (''y'', PInt 5), (''button'', PStr ''left''),
                       (''clicks'', PInt 2)],
         confidence = 8 / 10, raw_command = ''double click at 5,5''\<rparr>
        [Inr failed_result, Inr done_result]
     = (Inr done_result, [],
        [Click (PInt 5) (PInt 5) (PStr ''left''), Sleep (1 / 10),
         Click (PInt 5) (PInt 5) (PStr ''left'')])"
    by (simp add: dict_get_def dict_get_default_def)
  from p a b c show ?thesis by (intro conjI)
qed

text \<open>
  C9. When the command is blank, or \<open>parse_command\<close> returns \<open>None\<close> for it,
  \<open>process_command\<close> returns an error reply (never the success status) with an empty
  screenshot path and leaves the session, the history included, exactly as it was.  So
  whenever a call changes the history, the command was parsed to an intent.
\<close>

theorem parse_failure_leaves_history:
  "(py_strip command = [] \<or> parse_command command = Inr None \<longrightarrow>
      (\<exists>status reply.
         process_command abspath eng st command = (Inr (status, reply, Some []), st)
         \<and> status \<noteq> StatusSuccess))
   \<and> (execution_history (snd (process_command abspath eng st command)) \<noteq> execution_history st
        \<longrightarrow> (\<exists>i. parse_command command = Inr (Some i)))"
proof -
  have 1: "\<exists>status reply.
         process_command abspath eng st command = (Inr (status, reply, Some []), st)
         \<and> status \<noteq> StatusSuccess"
    if "py_strip command = [] \<or> parse_command command = Inr None"
  proof (cases "py_strip command = []")
    case True
    then show ?thesis by (simp add: process_blank)
  next
    case False
    with that have "parse_command command = Inr None" by simp
    with False show ?thesis by (simp add: process_unparsed)
  qed
  have 2: "\<exists>i. parse_command command = Inr (Some i)"
    if "execution_history (snd (process_command abspath eng st command)) \<noteq> execution_history st"
    using that process_history [of abspath eng st command] by blast
  from 1 2 show ?thesis by blast
qed

theorem parse_failure_leaves_history_witness:
  "py_strip ''   '' = []
   \<and> process_command id scripted \<lparr>world = [], execution_history = [(''screenshot'', done_result)]\<rparr>
        ''   ''
     = (Inr (StatusError, PleaseEnterACommand, Some []),
        \<lparr>world = [], execution_history = [(''screenshot'', done_result)]\<rparr>)
   \<and> parse_command ''do something vague'' = Inr None
   \<and> process_command id scripted \<lparr>world = [], execution_history = [(''screenshot'', done_result)]\<rparr>
        ''do something vague''
     = (Inr (StatusUnableToParse, CouldNotUnderstand ''do something vague'', Some []),
        \<lparr>world = [], execution_history = [(''screenshot'', done_result)]\<rparr>)"
proof -
  have a: "py_strip ''   '' = []" by code_simp
  have b: "parse_command ''do something vague'' = Inr None" by code_simp
  have nb: "py_strip ''do something vague'' \<noteq> []" by code_simp
  from a parse_failure_leaves_history [of "''   ''" id scripted
      "\<lparr>world = [], execution_history = [(''screenshot'', done_result)]\<rparr>"]
  have c: "process_command id scripted
        \<lparr>world = [], execution_history = [(''screenshot'', done_result)]\<rparr> ''   ''
     = (Inr (StatusError, PleaseEnterACommand, Some []),
        \<lparr>world = [], execution_history = [(''screenshot'', done_result)]\<rparr>)"
    by (simp add: process_command_def)
  from b nb parse_failure_leaves_history [of "''do something vague''" id scripted
      "\<lparr>world = [], execution_history = [(''screenshot'', done_result)]\<rparr>"]
  have d: "process_command id scripted
        \<lparr>world = [], execution_history = [(''screenshot'', done_result)]\<rparr>
        ''do something vague''
     = (Inr (StatusUnableToParse, CouldNotUnderstand ''do something vague'', Some []),
        \<lparr>world = [], execution_history = [(''screenshot'', done_result)]\<rparr>)"
    by (simp add: process_command_def)
  from a b c d show ?thesis by (intro conjI)
qed

text \<open>
  C6. \<open>parse_command\<close> gives the same outcome for a command and for its trimmed,
  lowercased form; hence whitespace added in front or behind, and a change of letter
  case, do not change the outcome.  A command of whitespace only (the empty command
  included) gives \<open>None\<close>.
\<close>

theorem normalization_invariance:
  "parse_command (py_strip (py_lower c)) = parse_command c
   \<and> (list_all isspace a \<and> list_all isspace b \<longrightarrow> parse_command (a @ c @ b) = parse_command c)
   \<and> (py_lower c' = py_lower c \<longrightarrow> parse_command c' = parse_command c)
   \<and> (list_all isspace c \<longrightarrow> parse_command c = Inr None)"
proof -
  have 1: "parse_command (py_strip (py_lower c)) = parse_command c"
    by (simp add: parse_command_def strip_lower_commute py_strip_idem py_lower_idem)
  have 2: "parse_command (a @ c @ b) = parse_command c"
    if "list_all isspace a \<and> list_all isspace b"
  proof -
    from that have "list_all isspace (py_lower a)" "list_all isspace (py_lower b)"
      by (simp_all add: list_all_iff py_lower_def isspace_lower_ch)
    then have "py_strip (py_lower a @ py_lower c @ py_lower b) = py_strip (py_lower c)"
      by (rule py_strip_pad)
    then have "py_strip (py_lower (a @ c @ b)) = py_strip (py_lower c)"
      by (simp add: py_lower_def)
    then show ?thesis
      by (simp add: parse_command_def)
  qed
  have 3: "parse_command c' = parse_command c" if "py_lower c' = py_lower c"
    using that by (simp add: parse_command_def)
  have 4: "parse_command c = Inr None" if "list_all isspace c"
    using that by (simp add: parse_command_def py_strip_blank)
  from 1 2 3 4 show ?thesis by blast
qed

theorem normalization_invariance_witness:
  "list_all isspace [CHR '' '', CHR 0x09] \<and> list_all isspace [CHR 0x0A]
   \<and> parse_command ([CHR '' '', CHR 0x09] @ ''Scroll UP 3'' @ [CHR 0x0A])
       = parse_command ''Scroll UP 3''
   \<and> py_lower ''sCROLL up 3'' = py_lower ''Scroll UP 3''
   \<and> parse_command ''sCROLL up 3'' = parse_command ''Scroll UP 3''
   \<and> parse_command ''Scroll UP 3''
       = Inr (Some \<lparr>action_type = ''scroll'',
                     parameters = [(''direction'', PStr ''up''), (''clicks'', PInt 3)],
                     confidence = 8 / 10, raw_command = ''scroll up 3''\<rparr>)
   \<and> parse_command [CHR '' '', CHR 0x09] = Inr None"
proof -
  have a: "list_all isspace [CHR '' '', CHR 0x09]" by code_simp
  have b: "list_all isspace [CHR 0x0A]" by code_simp
  have l: "py_lower ''sCROLL up 3'' = py_lower ''Scroll UP 3''" by code_simp
  have n: "py_strip (py_lower ''Scroll UP 3'') = ''scroll up 3''" by code_simp
  have p: "parse_command ''scroll up 3''
       = Inr (Some \<lparr>action_type = ''scroll'',
                     parameters = [(''direction'', PStr ''up''), (''clicks'', PInt 3)],
                     confidence = 8 / 10, raw_command = ''scroll up 3''\<rparr>)"
    by code_simp
  note t = normalization_invariance [of "''Scroll UP 3''" "[CHR '' '', CHR 0x09]" "[CHR 0x0A]"
      "''sCROLL up 3''"]
  from t a b have c: "parse_command ([CHR '' '', CHR 0x09] @ ''Scroll UP 3'' @ [CHR 0x0A])
       = parse_command ''Scroll UP 3''"
    by blast
  from t l have d: "parse_command ''sCROLL up 3'' = parse_command ''Scroll UP 3''"
    by blast
  from t n p have e: "parse_command ''Scroll UP 3''
       = Inr (Some \<lparr>action_type = ''scroll'',
                     parameters = [(''direction'', PStr ''up''), (''clicks'', PInt 3)],
                     confidence = 8 / 10, raw_command = ''scroll up 3''\<rparr>)"
    by (simp only:)
  from a normalization_invariance [of "[CHR '' '', CHR 0x09]" "[]" "[]" "[]"]
  have f: "parse_command [CHR '' '', CHR 0x09] = Inr None"
    by blast
  from a b c l d e f show ?thesis by (intro conjI)
qed

section \<open>Claims about the interpreter\<close>

text \<open>
  C5. The commands "scroll 3 times up" and "scroll up 3" both give a scroll intent
  with direction "up" and repeat count 3, and so does "scroll up".  In general, when a
  command gives a scroll intent and the direction rule finds its pattern with the
  count group absent, the repeat count of the intent is 3.
\<close>

theorem scroll_shapes_agree:
  "parse_command ''scroll 3 times up''
     = Inr (Some \<lparr>action_type = ''scroll'',
                   parameters = [(''direction'', PStr ''up''), (''clicks'', PInt 3)],
                   confidence = 8 / 10, raw_command = ''scroll 3 times up''\<rparr>)
   \<and> parse_command ''scroll up 3''
     = Inr (Some \<lparr>action_type = ''scroll'',
                   parameters = [(''direction'', PStr ''up''), (''clicks'', PInt 3)],
                   confidence = 8 / 10, raw_command = ''scroll up 3''\<rparr>)
   \<and> parse_command ''scroll up''
     = Inr (Some \<lparr>action_type = ''scroll'',
                   parameters = [(''direction'', PStr ''up''), (''clicks'', PInt 3)],
                   confidence = 8 / 10, raw_command = ''scroll up''\<rparr>)
   \<and> (parse_command c = Inr (Some i) \<and> action_type i = ''scroll''
        \<and> re_search scroll_direction_pattern (py_strip (py_lower c)) = Some m
        \<and> mtext m 2 = None
        \<longrightarrow> dict_get (parameters i) ''clicks'' = PInt 3)"
proof -
  have 1: "parse_command ''scroll 3 times up''
     = Inr (Some \<lparr>action_type = ''scroll'',
                   parameters = [(''direction'', PStr ''up''), (''clicks'', PInt 3)],
                   confidence = 8 / 10, raw_command = ''scroll 3 times up''\<rparr>)"
    by code_simp
  have 2: "parse_command ''scroll up 3''
     = Inr (Some \<lparr>action_type = ''scroll'',
                   parameters = [(''direction'', PStr ''up''), (''clicks'', PInt 3)],
                   confidence = 8 / 10, raw_command = ''scroll up 3''\<rparr>)"
    by code_simp
  have 3: "parse_command ''scroll up''
     = Inr (Some \<lparr>action_type = ''scroll'',
                   parameters = [(''direction'', PStr ''up''), (''clicks'', PInt 3)],
                   confidence = 8 / 10, raw_command = ''scroll up''\<rparr>)"
    by code_simp
  have 4: "dict_get (parameters i) ''clicks'' = PInt 3"
    if p: "parse_command c = Inr (Some i)" and a: "action_type i = ''scroll''"
      and s: "re_search scroll_direction_pattern (py_strip (py_lower c)) = Some m"
      and n: "mtext m 2 = None"
  proof -
    let ?cmd = "py_strip (py_lower c)"
    have low: "\<forall>x\<in>set ?cmd. lower_ch x = x"
      using lowered_fixed by blast
    from scroll_direction_groups [OF s low] have "mgroups m = 2" by simp
    from extract_direction_absent [OF this n]
    have e: "extract_parameters m ''direction'' ''scroll''
         = Inr (Some [(''direction'', opt_str (mtext m 1)), (''clicks'', PInt 3)])" .
    from scroll_intent_source [OF p a] s e
    have "i = \<lparr>action_type = ''scroll'',
             parameters = [(''direction'', opt_str (mtext m 1)), (''clicks'', PInt 3)],
             confidence = 8 / 10, raw_command = ?cmd\<rparr>"
      by simp
    then show ?thesis
      by (simp add: dict_get_def)
  qed
  from 1 2 3 4 show ?thesis by blast
qed

theorem scroll_shapes_agree_witness:
  "parse_command ''Scroll Up''
     = Inr (Some \<lparr>action_type = ''scroll'',
                   parameters = [(''direction'', PStr ''up''), (''clicks'', PInt 3)],
                   confidence = 8 / 10, raw_command = ''scroll up''\<rparr>)
   \<and> re_search scroll_direction_pattern (py_strip (py_lower ''Scroll Up''))
     = Some \<lparr>mgroups = 2, mtext = [1 \<mapsto> ''up'']\<rparr>
   \<and> mtext \<lparr>mgroups = 2, mtext = [1 \<mapsto> ''up'']\<rparr> 2 = None
   \<and> dict_get [(''direction'', PStr ''up''), (''clicks'', PInt 3)] ''clicks'' = PInt 3"
proof -
  have n: "py_strip (py_lower ''Scroll Up'') = ''scroll up''" by code_simp
  have a: "parse_command ''Scroll Up''
     = Inr (Some \<lparr>action_type = ''scroll'',
                   parameters = [(''direction'', PStr ''up''), (''clicks'', PInt 3)],
                   confidence = 8 / 10, raw_command = ''scroll up''\<rparr>)"
    by code_simp
  have b: "re_search scroll_direction_pattern ''scroll up''
     = Some \<lparr>mgroups = 2, mtext = [1 \<mapsto> ''up'']\<rparr>"
    by (simp add: scroll_direction_pattern_def up_down_def match_at_def lower_ch_def cp_def
        isspace_def isdecimal_def)
  have c: "mtext \<lparr>mgroups = 2, mtext = [1 \<mapsto> ''up'']\<rparr> 2 = None" by simp
  from a b c n scroll_shapes_agree [of "''Scroll Up''"
      "\<lparr>action_type = ''scroll'',
        parameters = [(''direction'', PStr ''up''), (''clicks'', PInt 3)],
        confidence = 8 / 10, raw_command = ''scroll up''\<rparr>"
      "\<lparr>mgroups = 2, mtext = [1 \<mapsto> ''up'']\<rparr>"]
  have d: "dict_get [(''direction'', PStr ''up''), (''clicks'', PInt 3)] ''clicks'' = PInt 3"
    by simp
  from a b c d n show ?thesis by simp
qed

text \<open>
  C10. Every scroll intent that \<open>parse_command\<close> produces has exactly the parameters
  direction and clicks, the direction being the string "up" or the string "down" and
  the count an integer.  The dispatcher passes these two values to the engine's
  \<open>scroll\<close>, and for such a direction neither engine gives the "Invalid scroll
  direction" result: the mock engine succeeds, the real one succeeds or reports the
  exception of the underlying scroll.
\<close>

theorem scroll_direction_safe:
  assumes "parse_command c = Inr (Some i)" and "action_type i = ''scroll''"
  shows "\<exists>d n. parameters i = [(''direction'', PStr d), (''clicks'', PInt n)]
           \<and> (d = ''up'' \<or> d = ''down'')
           \<and> snd (snd (execute_action eng i w)) = [Scroll (PStr d) (PInt n)]
           \<and> message (fst (AutomationEngine_scroll gui_scroll d n w'))
                \<noteq> ''Invalid scroll direction: '' @ d
           \<and> MockAutomationEngine_scroll d n
                = \<lparr>success = True,
                   message = ''[SIMULATED] Scrolled '' @ d @ '' '' @ str_int n @ '' clicks'',
                   result_type = ''scroll''\<rparr>"
proof -
  from scroll_intent_shape [OF assms] obtain d n where
    1: "parameters i = [(''direction'', PStr d), (''clicks'', PInt n)]" "d = ''up'' \<or> d = ''down''"
    by (elim exE conjE)
  from dispatch_scroll [OF assms(2), of eng w] 1(1)
  have 2: "snd (snd (execute_action eng i w)) = [Scroll (PStr d) (PInt n)]"
    by (simp add: dict_get_def dict_get_default_def)
  note 3 = engines_accept_direction(1) [OF 1(2), where gui_scroll = gui_scroll and n = n and w = w']
    engines_accept_direction(2) [OF 1(2), where n = n]
  from 1 2 3 have "parameters i = [(''direction'', PStr d), (''clicks'', PInt n)]
           \<and> (d = ''up'' \<or> d = ''down'')
           \<and> snd (snd (execute_action eng i w)) = [Scroll (PStr d) (PInt n)]
           \<and> message (fst (AutomationEngine_scroll gui_scroll d n w'))
                \<noteq> ''Invalid scroll direction: '' @ d
           \<and> MockAutomationEngine_scroll d n
                = \<lparr>success = True,
                   message = ''[SIMULATED] Scrolled '' @ d @ '' '' @ str_int n @ '' clicks'',
                   result_type = ''scroll''\<rparr>"
    by (intro conjI)
  then show ?thesis by (intro exI)
qed

theorem scroll_direction_safe_witness:
  "parse_command ''scroll down 5''
     = Inr (Some \<lparr>action_type = ''scroll'',
                   parameters = [(''direction'', PStr ''down''), (''clicks'', PInt 5)],
                   confidence = 8 / 10, raw_command = ''scroll down 5''\<rparr>)
   \<and> (\<exists>d n. [(''direction'', PStr ''down''), (''clicks'', PInt 5)]
                = [(''direction'', PStr d), (''clicks'', PInt n)]
           \<and> (d = ''up'' \<or> d = ''down'')
           \<and> message (fst (AutomationEngine_scroll (\<lambda>k u. (None, u)) d n ()))
                \<noteq> ''Invalid scroll direction: '' @ d
           \<and> success (MockAutomationEngine_scroll d n))"
proof -
  have a: "parse_command ''scroll down 5''
     = Inr (Some \<lparr>action_type = ''scroll'',
                   parameters = [(''direction'', PStr ''down''), (''clicks'', PInt 5)],
                   confidence = 8 / 10, raw_command = ''scroll down 5''\<rparr>)"
    by code_simp
  from scroll_direction_safe [OF a, of scripted "[]" "\<lambda>k u. (None, u)" "()"]
  have "\<exists>d n. [(''direction'', PStr ''down''), (''clicks'', PInt 5)]
                = [(''direction'', PStr d), (''clicks'', PInt n)]
           \<and> (d = ''up'' \<or> d = ''down'')
           \<and> message (fst (AutomationEngine_scroll (\<lambda>k u. (None, u)) d n ()))
                \<noteq> ''Invalid scroll direction: '' @ d
           \<and> success (MockAutomationEngine_scroll d n)"
    by auto
  with a show ?thesis by (intro conjI)
qed

text \<open>
  C4 (the code departs from it).  "press esc" and "press escape" give the same key
  "esc", and "ctrl+c" gives the key combination ctrl, c.  But "press ctrl+c" is taken
  by the first rule of the key category, the single-key rule for "press", which
  precedes the combination rule for "press": the result is the single key "ctrl", not
  the combination.
\<close>

theorem press_combination_is_single_key:
  "parse_command ''press esc''
     = Inr (Some \<lparr>action_type = ''key'', parameters = [(''key'', PStr ''esc'')],
                   confidence = 8 / 10, raw_command = ''press esc''\<rparr>)
   \<and> parse_command ''press escape''
     = Inr (Some \<lparr>action_type = ''key'', parameters = [(''key'', PStr ''esc'')],
                   confidence = 8 / 10, raw_command = ''press escape''\<rparr>)
   \<and> parse_command ''ctrl+c''
     = Inr (Some \<lparr>action_type = ''key'', parameters = [(''keys'', PKeys [''ctrl'', ''c''])],
                   confidence = 8 / 10, raw_command = ''ctrl+c''\<rparr>)
   \<and> parse_command ''press ctrl+c''
     = Inr (Some \<lparr>action_type = ''key'', parameters = [(''key'', PStr ''ctrl'')],
                   confidence = 8 / 10, raw_command = ''press ctrl+c''\<rparr>)"
proof -
  have 1: "parse_command ''press esc''
     = Inr (Some \<lparr>action_type = ''key'', parameters = [(''key'', PStr ''esc'')],
                   confidence = 8 / 10, raw_command = ''press esc''\<rparr>)"
    by code_simp
  have 2: "parse_command ''press escape''
     = Inr (Some \<lparr>action_type = ''key'', parameters = [(''key'', PStr ''esc'')],
                   confidence = 8 / 10, raw_command = ''press escape''\<rparr>)"
    by code_simp
  have 3: "parse_command ''ctrl+c''
     = Inr (Some \<lparr>action_type = ''key'', parameters = [(''keys'', PKeys [''ctrl'', ''c''])],
                   confidence = 8 / 10, raw_command = ''ctrl+c''\<rparr>)"
    by code_simp
  have 4: "parse_command ''press ctrl+c''
     = Inr (Some \<lparr>action_type = ''key'', parameters = [(''key'', PStr ''ctrl'')],
                   confidence = 8 / 10, raw_command = ''press ctrl+c''\<rparr>)"
    by code_simp
  from 1 2 3 4 show ?thesis by (intro conjI)
qed

text \<open>
  C2 (as the code has it).  The categories are visited in the order click, type, key,
  scroll, move, screenshot and the rules of a category in the listed order.  The
  intent returned is that of the first rule in this order whose pattern is found and
  whose parameters can be extracted: every earlier rule either does not match or fails
  in the extraction.  For "right click at 10,20" this is the very first rule, the
  right-click rule, with button "right"; the generic click rule, third in the list,
  would match too and give button "left".
\<close>

theorem first_successful_rule_wins:
  "map fst patterns = [''click'', ''type'', ''key'', ''scroll'', ''move'', ''screenshot'']
   \<and> map (\<lambda>(act, p, t). (act, t)) rule_list
       = [(''click'', ''right_coordinates''), (''click'', ''double_coordinates''),
          (''click'', ''coordinates''),
          (''type'', ''text''), (''type'', ''text''), (''type'', ''text''), (''type'', ''text''),
          (''key'', ''single_key''), (''key'', ''single_key''),
          (''key'', ''key_combo''), (''key'', ''key_combo''),
          (''scroll'', ''direction''), (''scroll'', ''direction_count''),
          (''move'', ''coordinates''), (''move'', ''coordinates''),
          (''screenshot'', ''simple''), (''screenshot'', ''simple''), (''screenshot'', ''simple'')]
   \<and> (py_strip (py_lower c) \<noteq> [] \<longrightarrow>
        (parse_command c = Inr (Some i) \<longleftrightarrow>
          (\<exists>k<length rule_list.
              try_rule (rule_list ! k) (py_strip (py_lower c)) = Inr (Some i)
              \<and> (\<forall>j<k. try_rule (rule_list ! j) (py_strip (py_lower c)) = Inr None))))
   \<and> rule_list ! 0 = (''click'', right_click_pattern, ''right_coordinates'')
   \<and> rule_list ! 2 = (''click'', click_pattern, ''coordinates'')
   \<and> parse_command ''right click at 10,20''
       = Inr (Some \<lparr>action_type = ''click'',
                     parameters = [(''x'', PInt 10), (''y'', PInt 20), (''button'', PStr ''right'')],
                     confidence = 8 / 10, raw_command = ''right click at 10,20''\<rparr>)
   \<and> try_rule (rule_list ! 0) ''right click at 10,20''
       = Inr (Some \<lparr>action_type = ''click'',
                     parameters = [(''x'', PInt 10), (''y'', PInt 20), (''button'', PStr ''right'')],
                     confidence = 8 / 10, raw_command = ''right click at 10,20''\<rparr>)
   \<and> try_rule (rule_list ! 2) ''right click at 10,20''
       = Inr (Some \<lparr>action_type = ''click'',
                     parameters = [(''x'', PInt 10), (''y'', PInt 20), (''button'', PStr ''left'')],
                     confidence = 8 / 10, raw_command = ''right click at 10,20''\<rparr>)"
proof -
  have 1: "map fst patterns = [''click'', ''type'', ''key'', ''scroll'', ''move'', ''screenshot'']"
    by (simp add: patterns_def)
  have 2: "map (\<lambda>(act, p, t). (act, t)) rule_list
       = [(''click'', ''right_coordinates''), (''click'', ''double_coordinates''),
          (''click'', ''coordinates''),
          (''type'', ''text''), (''type'', ''text''), (''type'', ''text''), (''type'', ''text''),
          (''key'', ''single_key''), (''key'', ''single_key''),
          (''key'', ''key_combo''), (''key'', ''key_combo''),
          (''scroll'', ''direction''), (''scroll'', ''direction_count''),
          (''move'', ''coordinates''), (''move'', ''coordinates''),
          (''screenshot'', ''simple''), (''screenshot'', ''simple''), (''screenshot'', ''simple'')]"
    by (simp add: rule_list_eq)
  have 3: "py_strip (py_lower c) \<noteq> [] \<longrightarrow>
        (parse_command c = Inr (Some i) \<longleftrightarrow>
          (\<exists>k<length rule_list.
              try_rule (rule_list ! k) (py_strip (py_lower c)) = Inr (Some i)
              \<and> (\<forall>j<k. try_rule (rule_list ! j) (py_strip (py_lower c)) = Inr None)))"
  proof
    assume "py_strip (py_lower c) \<noteq> []"
    then have "parse_command c = first_result rule_list (py_strip (py_lower c))"
      by (simp add: parse_command_first)
    then show "parse_command c = Inr (Some i) \<longleftrightarrow>
          (\<exists>k<length rule_list.
              try_rule (rule_list ! k) (py_strip (py_lower c)) = Inr (Some i)
              \<and> (\<forall>j<k. try_rule (rule_list ! j) (py_strip (py_lower c)) = Inr None))"
      by (simp only: first_result_Some)
  qed
  have 4: "rule_list ! 0 = (''click'', right_click_pattern, ''right_coordinates'')"
    by (simp add: rule_list_eq)
  have 5: "rule_list ! 2 = (''click'', click_pattern, ''coordinates'')"
    by (simp add: rule_list_eq)
  have 6: "parse_command ''right click at 10,20''
       = Inr (Some \<lparr>action_type = ''click'',
                     parameters = [(''x'', PInt 10), (''y'', PInt 20), (''button'', PStr ''right'')],
                     confidence = 8 / 10, raw_command = ''right click at 10,20''\<rparr>)"
    by code_simp
  have 7: "try_rule (rule_list ! 0) ''right click at 10,20''
       = Inr (Some \<lparr>action_type = ''click'',
                     parameters = [(''x'', PInt 10), (''y'', PInt 20), (''button'', PStr ''right'')],
                     confidence = 8 / 10, raw_command = ''right click at 10,20''\<rparr>)"
    unfolding 4 by code_simp
  have 8: "try_rule (rule_list ! 2) ''right click at 10,20''
       = Inr (Some \<lparr>action_type = ''click'',
                     parameters = [(''x'', PInt 10), (''y'', PInt 20), (''button'', PStr ''left'')],
                     confidence = 8 / 10, raw_command = ''right click at 10,20''\<rparr>)"
    unfolding 5 by code_simp
  from 1 2 3 4 5 6 7 8 show ?thesis by (intro conjI)
qed

theorem first_successful_rule_wins_witness:
  "py_strip (py_lower ''Right Click at 10,20'') \<noteq> []
   \<and> parse_command ''Right Click at 10,20''
       = Inr (Some \<lparr>action_type = ''click'',
                     parameters = [(''x'', PInt 10), (''y'', PInt 20), (''button'', PStr ''right'')],
                     confidence = 8 / 10, raw_command = ''right click at 10,20''\<rparr>)
   \<and> (\<exists>k<length rule_list.
          try_rule (rule_list ! k) (py_strip (py_lower ''Right Click at 10,20''))
            = Inr (Some \<lparr>action_type = ''click'',
                     parameters = [(''x'', PInt 10), (''y'', PInt 20), (''button'', PStr ''right'')],
                     confidence = 8 / 10, raw_command = ''right click at 10,20''\<rparr>)
          \<and> (\<forall>j<k. try_rule (rule_list ! j) (py_strip (py_lower ''Right Click at 10,20''))
                = Inr None))"
proof -
  have a: "py_strip (py_lower ''Right Click at 10,20'') \<noteq> []" by code_simp
  have b: "parse_command ''Right Click at 10,20''
       = Inr (Some \<lparr>action_type = ''click'',
                     parameters = [(''x'', PInt 10), (''y'', PInt 20), (''button'', PStr ''right'')],
                     confidence = 8 / 10, raw_command = ''right click at 10,20''\<rparr>)"
    by code_simp
  from a b first_successful_rule_wins [of "''Right Click at 10,20''"
      "\<lparr>action_type = ''click'',
        parameters = [(''x'', PInt 10), (''y'', PInt 20), (''button'', PStr ''right'')],
        confidence = 8 / 10, raw_command = ''right click at 10,20''\<rparr>"]
  have c: "\<exists>k<length rule_list.
          try_rule (rule_list ! k) (py_strip (py_lower ''Right Click at 10,20''))
            = Inr (Some \<lparr>action_type = ''click'',
                     parameters = [(''x'', PInt 10), (''y'', PInt 20), (''button'', PStr ''right'')],
                     confidence = 8 / 10, raw_command = ''right click at 10,20''\<rparr>)
          \<and> (\<forall>j<k. try_rule (rule_list ! j) (py_strip (py_lower ''Right Click at 10,20''))
                = Inr None)"
    by blast
  from a b c show ?thesis by (intro conjI)
qed

text \<open>
  C2 as written, "the intent of the first matching rule", fails: in
  \<open>long_y_command\<close> the pattern of the first rule, the right-click rule, is found, but its
  y coordinate has 4301 digits and cannot be converted, so the rule gives nothing and
  the intent returned is that of the second rule, the double click at 3,4.
\<close>

theorem first_matching_rule_counterexample:
  "rule_list ! 0 = (''click'', right_click_pattern, ''right_coordinates'')
   \<and> re_search right_click_pattern (py_strip (py_lower long_y_command))
       = Some \<lparr>mgroups = 2, mtext = [1 \<mapsto> ''5'', 2 \<mapsto> long_number]\<rparr>
   \<and> try_rule (rule_list ! 0) (py_strip (py_lower long_y_command)) = Inr None
   \<and> parse_command long_y_command
       = Inr (Some \<lparr>action_type = ''click'',
                     parameters = [(''x'', PInt 3), (''y'', PInt 4), (''button'', PStr ''left''),
                                   (''clicks'', PInt 2)],
                     confidence = 8 / 10, raw_command = long_y_command\<rparr>)"
proof -
  have 0: "rule_list ! 0 = (''click'', right_click_pattern, ''right_coordinates'')"
    by (simp add: rule_list_eq)
  have 1: "re_search right_click_pattern (py_strip (py_lower long_y_command))
       = Some \<lparr>mgroups = 2, mtext = [1 \<mapsto> ''5'', 2 \<mapsto> long_number]\<rparr>"
    unfolding long_y_normal by (rule long_y_right)
  have 2: "try_rule (rule_list ! 0) (py_strip (py_lower long_y_command)) = Inr None"
    unfolding long_y_normal 0 by (rule long_y_first)
  from 0 1 2 long_y_parse show ?thesis by (intro conjI)
qed

text \<open>
  C1 (as the code has it).  When the pattern of a rule is found and the extraction of its
  parameters raises a ValueError, the rule gives nothing, and the traversal goes on:
  if every earlier rule gave nothing either, the outcome of \<open>parse_command\<close> is the
  outcome of the rules after it, in their order.  It is \<open>None\<close> only when none of them
  gives an intent.
\<close>

theorem extraction_failure_falls_through:
  assumes "k < length rule_list" and "rule_list ! k = (act, p, t)"
    and "cmd = py_strip (py_lower c)" and "cmd \<noteq> []"
    and "\<forall>j<k. try_rule (rule_list ! j) cmd = Inr None"
    and "re_search p cmd = Some m"
    and "extract_body m t = Inl e" and "exc_class_of e = ValueError"
  shows "try_rule (rule_list ! k) cmd = Inr None
         \<and> parse_command c = first_result (drop (Suc k) rule_list) cmd"
proof -
  from assms(2,6,7,8) have here: "try_rule (rule_list ! k) cmd = Inr None"
    by (simp add: try_rule_def extract_parameters_def)
  have "\<forall>j<Suc k. try_rule (rule_list ! j) cmd = Inr None"
  proof (intro allI impI)
    fix j assume "j < Suc k"
    then consider "j < k" | "j = k" by linarith
    then show "try_rule (rule_list ! j) cmd = Inr None"
      using assms(5) here by cases simp_all
  qed
  moreover from assms(1) have "Suc k \<le> length rule_list" by simp
  ultimately have "first_result rule_list cmd = first_result (drop (Suc k) rule_list) cmd"
    by (rule first_result_skip [rotated])
  with assms(3,4) have "parse_command c = first_result (drop (Suc k) rule_list) cmd"
    by (simp add: parse_command_first)
  with here show ?thesis by simp
qed

theorem extraction_failure_falls_through_witness:
  "0 < length rule_list
   \<and> rule_list ! 0 = (''click'', right_click_pattern, ''right_coordinates'')
   \<and> long_x_command = py_strip (py_lower long_x_command) \<and> long_x_command \<noteq> []
   \<and> re_search right_click_pattern long_x_command
       = Some \<lparr>mgroups = 2, mtext = [1 \<mapsto> long_number, 2 \<mapsto> ''5'']\<rparr>
   \<and> try_rule (rule_list ! 0) long_x_command = Inr None
   \<and> parse_command long_x_command = first_result (drop (Suc 0) rule_list) long_x_command
   \<and> first_result (drop (Suc 0) rule_list) long_x_command
       = Inr (Some \<lparr>action_type = ''click'',
                     parameters = [(''x'', PInt 1), (''y'', PInt 2), (''button'', PStr ''left''),
                                   (''clicks'', PInt 2)],
                     confidence = 8 / 10, raw_command = long_x_command\<rparr>)"
proof -
  have a: "0 < length rule_list" by (simp add: rule_list_eq)
  have b: "rule_list ! 0 = (''click'', right_click_pattern, ''right_coordinates'')"
    by (simp add: rule_list_eq)
  have c: "long_x_command = py_strip (py_lower long_x_command)"
    by (simp add: long_x_normal)
  have d: "long_x_command \<noteq> []" by (simp add: long_x_command_def)
  have e: "\<forall>j<0. try_rule (rule_list ! j) long_x_command = Inr None" by simp
  have f: "exc_class_of (Raised ValueError
         ''Exceeds the limit (4300 digits) for integer string conversion: value has 4301 digits; use sys.set_int_max_str_digits() to increase the limit'')
       = ValueError"
    by simp
  note t = extraction_failure_falls_through [OF a b c d e long_x_right long_x_error f]
  have g: "first_result (drop (Suc 0) rule_list) long_x_command
       = Inr (Some \<lparr>action_type = ''click'',
                     parameters = [(''x'', PInt 1), (''y'', PInt 2), (''button'', PStr ''left''),
                                   (''clicks'', PInt 2)],
                     confidence = 8 / 10, raw_command = long_x_command\<rparr>)"
    by (simp add: rule_list_eq long_x_second)
  from t have t1: "try_rule (rule_list ! 0) long_x_command = Inr None"
    and t2: "parse_command long_x_command = first_result (drop (Suc 0) rule_list) long_x_command"
    by (rule conjunct1, rule conjunct2)
  from a b c d long_x_right t1 t2 g show ?thesis by (intro conjI)
qed

text \<open>
  C1 as written, that such a command gives \<open>None\<close> without a look at later rules,
  fails: in \<open>long_x_command\<close> the right-click pattern is found and the conversion
  of its x coordinate of 4301 digits raises a ValueError, yet \<open>parse_command\<close> returns
  the intent of the next rule, the double click at 1,2.
\<close>

theorem fail_fast_counterexample:
  "re_search right_click_pattern (py_strip (py_lower long_x_command))
       = Some \<lparr>mgroups = 2, mtext = [1 \<mapsto> long_number, 2 \<mapsto> ''5'']\<rparr>
   \<and> extract_body \<lparr>mgroups = 2, mtext = [1 \<mapsto> long_number, 2 \<mapsto> ''5'']\<rparr> ''right_coordinates''
       = Inl (Raised ValueError
           ''Exceeds the limit (4300 digits) for integer string conversion: value has 4301 digits; use sys.set_int_max_str_digits() to increase the limit'')
   \<and> parse_command long_x_command
       = Inr (Some \<lparr>action_type = ''click'',
                     parameters = [(''x'', PInt 1), (''y'', PInt 2), (''button'', PStr ''left''),
                                   (''clicks'', PInt 2)],
                     confidence = 8 / 10, raw_command = long_x_command\<rparr>)
   \<and> parse_command long_x_command \<noteq> Inr None"
proof -
  have 1: "re_search right_click_pattern (py_strip (py_lower long_x_command))
       = Some \<lparr>mgroups = 2, mtext = [1 \<mapsto> long_number, 2 \<mapsto> ''5'']\<rparr>"
    unfolding long_x_normal by (rule long_x_right)
  have 2: "parse_command long_x_command \<noteq> Inr None"
    unfolding long_x_parse by simp
  from 1 long_x_error long_x_parse 2 show ?thesis by (intro conjI)
qed

end
